theory Spec2Isabelle
  imports Complex_Main "HOL-Library.Char_ord" "HOL-Library.List_Lexorder" "HOL-Library.Multiset"
begin

section \<open>Python decorators: a shallow embedding of decorators-example.py\<close>

subsection \<open>Exceptions, callables and function objects\<close>

text \<open>
  An exception object is modelled by its value. \<open>PyExn c m\<close> is an instance of the
  class named \<open>c\<close> (a subclass of \<open>Exception\<close>) whose \<open>str\<close> is \<open>m\<close>. Two
  messages of the source interpolate numbers; they are kept as the interpolated values:
  \<open>ExcRateLimit n w\<close> is
  \<^verbatim>\<open>Exception(f"Rate limit exceeded: {n} calls per {w} seconds")\<close>, and
  \<open>ExcArity f\<close> is the \<open>TypeError\<close> the interpreter raises when the arguments of a
  call do not fit the parameters of the function named \<open>f\<close>.
  \<open>raise\<close> is the left injection of a sum, \<open>return\<close> the right one. What is
  raised is always an \<open>Exception\<close>: \<open>KeyboardInterrupt\<close>, \<open>SystemExit\<close> and the
  like, which \<open>except Exception\<close> does not catch, are not modelled.
\<close>

datatype pyexn =
    PyExn string string
  | ExcRateLimit int rat
  | ExcArity string

fun exn_class :: "pyexn \<Rightarrow> string" where
  "exn_class (PyExn c m) = c"
| "exn_class (ExcRateLimit n w) = ''Exception''"
| "exn_class (ExcArity f) = ''TypeError''"

text \<open>
  A callable takes the positional arguments (\<open>*args\<close>), the keyword arguments
  (\<open>**kwargs\<close>, a dict: an association list in the order supplied, with distinct keys)
  and the state it owns; it raises or returns, and leaves a new state.
\<close>

type_synonym ('v, 's, 'r) callable =
  "'v list \<Rightarrow> (string \<times> 'v) list \<Rightarrow> 's \<Rightarrow> (pyexn + 'r) \<times> 's"

text \<open>A function object: \<open>__name__\<close>, \<open>__doc__\<close> and what calling it does.\<close>

record ('v, 's, 'r) pyfunc =
  name :: string
  doc :: "string option"
  call :: "('v, 's, 'r) callable"

text \<open>
  \<open>functools.wraps(func)(wrapper)\<close>: the wrapper takes over the name and the
  documentation of the function it wraps.
\<close>

definition wraps ::
  "('v, 's, 'r) pyfunc \<Rightarrow> ('v1, 's1, 'r1) pyfunc \<Rightarrow> ('v1, 's1, 'r1) pyfunc" where
  "wraps func wrapper = wrapper\<lparr>name := name func, doc := doc func\<rparr>"

subsection \<open>The world of one wrapper\<close>

text \<open>
  What a wrapper prints or logs. Formatted text is kept as the values it interpolates.
\<close>

datatype ('v, 'r) message =
    Before_calling string
  | After_calling string
  | Calling string
  | Took string rat
  | Attempt_failed int pyexn rat
  | All_failed int
  | Computing string "'v list"
  | Cache_hit string "'v list"
  | Log_calling string "'v list" "(string \<times> 'v) list"
  | Log_returned string 'r
  | Log_raised string string pyexn

datatype ('v, 'r) event =
    Invoked
  | Slept rat
  | Printed "('v, 'r) message"
  | Logged int "('v, 'r) message"

text \<open>
  Each wrapper runs in a world of its own: the state of the callable it wraps
  (\<open>inner\<close>), the variables of its closure (\<open>priv\<close>: the cache, the call window),
  the effects it has had so far, in order (\<open>trace\<close>), and the clock: \<open>clock w i\<close> is
  what the \<open>i\<close>-th reading of \<open>time.time()\<close> returns, and \<open>reads\<close> counts the
  readings made. Times and delays are rational numbers, and their arithmetic is exact.
  A callable called through \<open>invoke\<close> sees \<open>inner\<close> only.
\<close>

record ('s, 'p, 'v, 'r) world =
  inner :: 's
  priv :: 'p
  trace :: "('v, 'r) event list"
  clock :: "nat \<Rightarrow> rat"
  reads :: nat

definition emit ::
  "('v, 'r) event \<Rightarrow> ('s, 'p, 'v, 'r) world \<Rightarrow> ('s, 'p, 'v, 'r) world" where
  "emit e w = w\<lparr>trace := trace w @ [e]\<rparr>"

definition py_print ::
  "('v, 'r) message \<Rightarrow> ('s, 'p, 'v, 'r) world \<Rightarrow> ('s, 'p, 'v, 'r) world" where
  "py_print t w = emit (Printed t) w"

text \<open>\<open>func(*args, **kwargs)\<close> inside a wrapper.\<close>

definition invoke ::
  "('v, 's, 'r) pyfunc \<Rightarrow> 'v list \<Rightarrow> (string \<times> 'v) list \<Rightarrow>
     ('s, 'p, 'v, 'r) world \<Rightarrow> (pyexn + 'r) \<times> ('s, 'p, 'v, 'r) world" where
  "invoke func args kwargs w =
     (case call func args kwargs (inner w) of
        (res, s) \<Rightarrow> (res, (emit Invoked w)\<lparr>inner := s\<rparr>))"

text \<open>\<open>time.time()\<close> and \<open>time.sleep(secs)\<close>; a negative \<open>secs\<close> raises.\<close>

definition time_time :: "('s, 'p, 'v, 'r) world \<Rightarrow> rat \<times> ('s, 'p, 'v, 'r) world" where
  "time_time w = (clock w (reads w), w\<lparr>reads := Suc (reads w)\<rparr>)"

definition time_sleep ::
  "rat \<Rightarrow> ('s, 'p, 'v, 'r) world \<Rightarrow> (pyexn + unit) \<times> ('s, 'p, 'v, 'r) world" where
  "time_sleep secs w =
     (if secs < 0 then (Inl (PyExn ''ValueError'' ''sleep length must be non-negative''), w)
      else (Inr (), emit (Slept secs) w))"

text \<open>How often the wrapper has called the callable it wraps, and what it has slept.\<close>

definition invocations :: "('s, 'p, 'v, 'r) world \<Rightarrow> nat" where
  "invocations w = count_list (trace w) Invoked"

fun sleeps :: "('v, 'r) event list \<Rightarrow> rat list" where
  "sleeps [] = []"
| "sleeps (Slept d # es) = d # sleeps es"
| "sleeps (e # es) = sleeps es"

fun printed :: "('v, 'r) event list \<Rightarrow> ('v, 'r) message list" where
  "printed [] = []"
| "printed (Printed t # es) = t # printed es"
| "printed (e # es) = printed es"

fun logged :: "('v, 'r) event list \<Rightarrow> (int \<times> ('v, 'r) message) list" where
  "logged [] = []"
| "logged (Logged l t # es) = (l, t) # logged es"
| "logged (e # es) = logged es"

text \<open>
  The behaviour of a callable over consecutive calls with the same arguments:
  its state after \<open>n\<close> calls, and the outcome of call number \<open>n\<close> (counted from 0).
\<close>

fun state_after :: "('v, 's, 'r) pyfunc \<Rightarrow> 'v list \<Rightarrow> (string \<times> 'v) list \<Rightarrow> nat \<Rightarrow> 's \<Rightarrow> 's" where
  "state_after func args kwargs 0 s = s"
| "state_after func args kwargs (Suc n) s =
     state_after func args kwargs n (snd (call func args kwargs s))"

definition outcome ::
  "('v, 's, 'r) pyfunc \<Rightarrow> 'v list \<Rightarrow> (string \<times> 'v) list \<Rightarrow> nat \<Rightarrow> 's \<Rightarrow> pyexn + 'r" where
  "outcome func args kwargs n s = fst (call func args kwargs (state_after func args kwargs n s))"

subsection \<open>1, 2: the basic decorator, with and without functools.wraps\<close>

definition my_decorator_wrapper ::
  "('v, 's, 'r) pyfunc \<Rightarrow> ('v, ('s, unit, 'v, 'r) world, 'r) callable" where
  "my_decorator_wrapper func args kwargs w =
     (case invoke func args kwargs (py_print (Before_calling (name func)) w) of
        (Inl e, w1) \<Rightarrow> (Inl e, w1)
      | (Inr result, w1) \<Rightarrow> (Inr result, py_print (After_calling (name func)) w1))"

definition my_decorator ::
  "('v, 's, 'r) pyfunc \<Rightarrow> ('v, ('s, unit, 'v, 'r) world, 'r) pyfunc" where
  "my_decorator func =
     \<lparr>name = ''wrapper'', doc = None, call = my_decorator_wrapper func\<rparr>"

definition better_decorator_wrapper ::
  "('v, 's, 'r) pyfunc \<Rightarrow> ('v, ('s, unit, 'v, 'r) world, 'r) callable" where
  "better_decorator_wrapper func args kwargs w =
     invoke func args kwargs (py_print (Calling (name func)) w)"

definition better_decorator ::
  "('v, 's, 'r) pyfunc \<Rightarrow> ('v, ('s, unit, 'v, 'r) world, 'r) pyfunc" where
  "better_decorator func =
     wraps func \<lparr>name = ''wrapper'', doc = None, call = better_decorator_wrapper func\<rparr>"

subsection \<open>3: timer\<close>

definition timer_wrapper ::
  "('v, 's, 'r) pyfunc \<Rightarrow> ('v, ('s, unit, 'v, 'r) world, 'r) callable" where
  "timer_wrapper func args kwargs w =
     (case time_time w of
        (start_time, w1) \<Rightarrow>
          (case invoke func args kwargs w1 of
             (Inl e, w2) \<Rightarrow> (Inl e, w2)
           | (Inr result, w2) \<Rightarrow>
               (case time_time w2 of
                  (end_time, w3) \<Rightarrow>
                    (Inr result, py_print (Took (name func) (end_time - start_time)) w3))))"

definition timer ::
  "('v, 's, 'r) pyfunc \<Rightarrow> ('v, ('s, unit, 'v, 'r) world, 'r) pyfunc" where
  "timer func = wraps func \<lparr>name = ''wrapper'', doc = None, call = timer_wrapper func\<rparr>"

subsection \<open>5: retry\<close>

text \<open>\<open>range(n)\<close>, empty when \<open>n \<le> 0\<close>.\<close>

definition py_range :: "int \<Rightarrow> int list" where
  "py_range n = map int [0..<nat n]"

text \<open>
  The \<open>for\<close> loop of the wrapper over the attempts still to make, with
  \<open>last_exception\<close> (\<open>None\<close> at first), followed by \<open>raise last_exception\<close>, which
  raises a \<open>TypeError\<close> of its own when \<open>last_exception\<close> is still \<open>None\<close>.
\<close>

fun retry_loop ::
  "int \<Rightarrow> rat \<Rightarrow> ('v, 's, 'r) pyfunc \<Rightarrow> 'v list \<Rightarrow> (string \<times> 'v) list \<Rightarrow>
     int list \<Rightarrow> pyexn option \<Rightarrow> ('s, unit, 'v, 'r) world \<Rightarrow>
     (pyexn + 'r) \<times> ('s, unit, 'v, 'r) world" where
  "retry_loop max_attempts delay func args kwargs [] last_exception w =
     (case last_exception of
        None \<Rightarrow> (Inl (PyExn ''TypeError'' ''exceptions must derive from BaseException''), w)
      | Some e \<Rightarrow> (Inl e, w))"
| "retry_loop max_attempts delay func args kwargs (attempt # rest) last_exception w =
     (case invoke func args kwargs w of
        (Inr result, w1) \<Rightarrow> (Inr result, w1)
      | (Inl e, w1) \<Rightarrow>
          (if attempt < max_attempts - 1 then
             (case time_sleep delay (py_print (Attempt_failed (attempt + 1) e delay) w1) of
                (Inl e', w2) \<Rightarrow> (Inl e', w2)
              | (Inr u, w2) \<Rightarrow>
                  retry_loop max_attempts delay func args kwargs rest (Some e) w2)
           else
             retry_loop max_attempts delay func args kwargs rest (Some e)
               (py_print (All_failed max_attempts) w1)))"

definition retry_wrapper ::
  "int \<Rightarrow> rat \<Rightarrow> ('v, 's, 'r) pyfunc \<Rightarrow> ('v, ('s, unit, 'v, 'r) world, 'r) callable" where
  "retry_wrapper max_attempts delay func args kwargs w =
     retry_loop max_attempts delay func args kwargs (py_range max_attempts) None w"

definition retry ::
  "int \<Rightarrow> rat \<Rightarrow> ('v, 's, 'r) pyfunc \<Rightarrow> ('v, ('s, unit, 'v, 'r) world, 'r) pyfunc" where
  "retry max_attempts delay func =
     wraps func
       \<lparr>name = ''wrapper'', doc = None, call = retry_wrapper max_attempts delay func\<rparr>"

subsection \<open>Values, types and the binding of arguments to parameters\<close>

text \<open>
  The values the examples of the source pass around, their classes, and \<open>isinstance\<close>
  (\<open>bool\<close> is a subclass of \<open>int\<close>, every class one of \<open>object\<close>).
\<close>

datatype pyval = VNone | VBool bool | VInt int | VStr string | VDict "(string \<times> pyval) list"

datatype pytype = TObject | TNoneType | TBool | TInt | TStr | TDict

fun type_of :: "pyval \<Rightarrow> pytype" where
  "type_of VNone = TNoneType"
| "type_of (VBool b) = TBool"
| "type_of (VInt i) = TInt"
| "type_of (VStr s) = TStr"
| "type_of (VDict d) = TDict"

fun type_name :: "pytype \<Rightarrow> string" where
  "type_name TObject = ''object''"
| "type_name TNoneType = ''NoneType''"
| "type_name TBool = ''bool''"
| "type_name TInt = ''int''"
| "type_name TStr = ''str''"
| "type_name TDict = ''dict''"

definition isinstance :: "pyval \<Rightarrow> pytype \<Rightarrow> bool" where
  "isinstance v t = (t = TObject \<or> type_of v = t \<or> (type_of v = TBool \<and> t = TInt))"

text \<open>
  A signature is the list of the parameters, each positional-or-keyword, with its default
  if it has one. \<open>bind\<close> is \<open>inspect.Signature.bind\<close> followed by \<open>apply_defaults\<close>:
  positional arguments first, then the remaining parameters from the keyword arguments or
  their defaults, then the keyword arguments nobody took. \<open>quoted\<close> is the \<open>repr\<close> of
  a name.
\<close>

record 'v param =
  pname :: string
  pdefault :: "'v option"

definition quoted :: "string \<Rightarrow> string" where
  "quoted s = [CHR 0x27] @ s @ [CHR 0x27]"

fun bind_positional ::
  "'v param list \<Rightarrow> 'v list \<Rightarrow> (string \<times> 'v) list \<Rightarrow>
     pyexn + ((string \<times> 'v) list \<times> 'v param list)" where
  "bind_positional ps [] kwargs = Inr ([], ps)"
| "bind_positional [] (a # as) kwargs =
     Inl (PyExn ''TypeError'' ''too many positional arguments'')"
| "bind_positional (p # ps) (a # as) kwargs =
     (if pname p \<in> fst ` set kwargs
      then Inl (PyExn ''TypeError'' (''multiple values for argument '' @ quoted (pname p)))
      else (case bind_positional ps as kwargs of
              Inl e \<Rightarrow> Inl e
            | Inr (bound, rest) \<Rightarrow> Inr ((pname p, a) # bound, rest)))"

fun bind_keywords ::
  "'v param list \<Rightarrow> (string \<times> 'v) list \<Rightarrow> pyexn + (string \<times> 'v) list" where
  "bind_keywords [] kwargs = Inr []"
| "bind_keywords (p # ps) kwargs =
     (case (case map_of kwargs (pname p) of Some v \<Rightarrow> Some v | None \<Rightarrow> pdefault p) of
        None \<Rightarrow> Inl (PyExn ''TypeError'' (''missing a required argument: '' @ quoted (pname p)))
      | Some v \<Rightarrow>
          (case bind_keywords ps kwargs of
             Inl e \<Rightarrow> Inl e
           | Inr bound \<Rightarrow> Inr ((pname p, v) # bound)))"

definition bind ::
  "'v param list \<Rightarrow> 'v list \<Rightarrow> (string \<times> 'v) list \<Rightarrow> pyexn + (string \<times> 'v) list" where
  "bind sig args kwargs =
     (case bind_positional sig args kwargs of
        Inl e \<Rightarrow> Inl e
      | Inr (bound, rest) \<Rightarrow>
          (case bind_keywords rest kwargs of
             Inl e \<Rightarrow> Inl e
           | Inr bound' \<Rightarrow>
               (case filter (\<lambda>kv. fst kv \<notin> pname ` set rest) kwargs of
                  [] \<Rightarrow> Inr (bound @ bound')
                | kv # kvs \<Rightarrow>
                    Inl (PyExn ''TypeError''
                      (''got an unexpected keyword argument '' @ quoted (fst kv))))))"

text \<open>
  \<open>def f(params): body\<close>: calling \<open>f\<close> binds the arguments and runs the body on the
  values of the parameters, in their order; arguments that do not fit raise.
\<close>

definition py_def ::
  "string \<Rightarrow> 'v param list \<Rightarrow> ('v list \<Rightarrow> 's \<Rightarrow> (pyexn + 'r) \<times> 's) \<Rightarrow> ('v, 's, 'r) callable" where
  "py_def f sig body args kwargs s =
     (case bind sig args kwargs of
        Inl e \<Rightarrow> (Inl (ExcArity f), s)
      | Inr bound \<Rightarrow> body (map snd bound) s)"

definition required :: "string \<Rightarrow> 'v param" where
  "required p = \<lparr>pname = p, pdefault = None\<rparr>"

subsection \<open>6: log_calls\<close>

text \<open>
  \<open>logging.basicConfig(level=logging.INFO)\<close>: a record below \<open>INFO\<close> (20) is dropped;
  \<open>logger.error\<close> logs at \<open>ERROR\<close> (40).
\<close>

definition logger_log ::
  "int \<Rightarrow> ('v, 'r) message \<Rightarrow> ('s, 'p, 'v, 'r) world \<Rightarrow> ('s, 'p, 'v, 'r) world" where
  "logger_log level t w = (if 20 \<le> level then emit (Logged level t) w else w)"

definition logger_error ::
  "('v, 'r) message \<Rightarrow> ('s, 'p, 'v, 'r) world \<Rightarrow> ('s, 'p, 'v, 'r) world" where
  "logger_error t w = logger_log 40 t w"

definition log_calls_wrapper ::
  "int \<Rightarrow> ('v, 's, 'r) pyfunc \<Rightarrow> ('v, ('s, unit, 'v, 'r) world, 'r) callable" where
  "log_calls_wrapper level func args kwargs w =
     (case invoke func args kwargs (logger_log level (Log_calling (name func) args kwargs) w) of
        (Inr result, w1) \<Rightarrow> (Inr result, logger_log level (Log_returned (name func) result) w1)
      | (Inl e, w1) \<Rightarrow> (Inl e, logger_error (Log_raised (name func) (exn_class e) e) w1))"

definition log_calls ::
  "int \<Rightarrow> ('v, 's, 'r) pyfunc \<Rightarrow> ('v, ('s, unit, 'v, 'r) world, 'r) pyfunc" where
  "log_calls level func =
     wraps func \<lparr>name = ''wrapper'', doc = None, call = log_calls_wrapper level func\<rparr>"

subsection \<open>7: validate_types\<close>

text \<open>
  The loop over \<open>expected_types.items()\<close>, in the order the types were configured:
  the first parameter whose bound value is not an instance of its type raises.
\<close>

definition type_error :: "string \<Rightarrow> pytype \<Rightarrow> pyval \<Rightarrow> pyexn" where
  "type_error param_name expected_type v =
     PyExn ''TypeError''
       (param_name @ '' must be '' @ type_name expected_type @ '', got ''
          @ type_name (type_of v))"

fun check_types :: "(string \<times> pytype) list \<Rightarrow> (string \<rightharpoonup> pyval) \<Rightarrow> pyexn option" where
  "check_types [] arguments = None"
| "check_types ((param_name, expected_type) # rest) arguments =
     (case arguments param_name of
        None \<Rightarrow> check_types rest arguments
      | Some v \<Rightarrow>
          (if \<not> isinstance v expected_type
           then Some (type_error param_name expected_type v)
           else check_types rest arguments))"

text \<open>\<open>sig\<close> is \<open>inspect.signature(func)\<close>.\<close>

definition validate_types_wrapper ::
  "(string \<times> pytype) list \<Rightarrow> pyval param list \<Rightarrow> (pyval, 's, 'r) pyfunc \<Rightarrow>
     (pyval, ('s, unit, pyval, 'r) world, 'r) callable" where
  "validate_types_wrapper expected_types sig func args kwargs w =
     (case bind sig args kwargs of
        Inl e \<Rightarrow> (Inl e, w)
      | Inr bound_args \<Rightarrow>
          (case check_types expected_types (map_of bound_args) of
             Some e \<Rightarrow> (Inl e, w)
           | None \<Rightarrow> invoke func args kwargs w))"

definition validate_types ::
  "(string \<times> pytype) list \<Rightarrow> pyval param list \<Rightarrow> (pyval, 's, 'r) pyfunc \<Rightarrow>
     (pyval, ('s, unit, pyval, 'r) world, 'r) pyfunc" where
  "validate_types expected_types sig func =
     wraps func
       \<lparr>name = ''wrapper'', doc = None,
        call = validate_types_wrapper expected_types sig func\<rparr>"

subsection \<open>8: memoize\<close>

text \<open>
  The cache key is \<open>str(args) + str(sorted(kwargs.items()))\<close>. \<open>str\<close> of a tuple or
  a list writes the \<open>repr\<close> of each element, separated by a comma and a space; a tuple
  of one element ends in a comma. The \<open>repr\<close> of the argument values and of the keyword
  names are Python's and are parameters here. The keys of a dict are distinct, so sorting
  the items is sorting them by key.
\<close>

fun join :: "string \<Rightarrow> string list \<Rightarrow> string" where
  "join sep [] = []"
| "join sep [x] = x"
| "join sep (x # y # ys) = x @ sep @ join sep (y # ys)"

definition str_tuple :: "string list \<Rightarrow> string" where
  "str_tuple items =
     (case items of
        [x] \<Rightarrow> ''('' @ x @ '',)''
      | _ \<Rightarrow> ''('' @ join '', '' items @ '')'')"

definition str_list :: "string list \<Rightarrow> string" where
  "str_list items = ''['' @ join '', '' items @ '']''"

definition memo_key ::
  "(string \<Rightarrow> string) \<Rightarrow> ('v \<Rightarrow> string) \<Rightarrow> 'v list \<Rightarrow> (string \<times> 'v) list \<Rightarrow> string" where
  "memo_key repr_name repr args kwargs =
     str_tuple (map repr args)
     @ str_list (map (\<lambda>kv. str_tuple [repr_name (fst kv), repr (snd kv)])
                  (sort_key fst kwargs))"

text \<open>
  The cache is a dict from keys to results, kept in \<open>priv\<close> in insertion order;
  \<open>store\<close> is the assignment \<open>cache[key] = result\<close>. The function that is memoized
  runs in the world of the wrapper: it may call the wrapper again, as \<open>fibonacci\<close> does,
  and so reach the cache and the trace. \<open>cache[key] = func(*args, **kwargs)\<close> stores
  nothing when the call raises.
\<close>

fun store :: "string \<Rightarrow> 'r \<Rightarrow> (string \<times> 'r) list \<Rightarrow> (string \<times> 'r) list" where
  "store key result [] = [(key, result)]"
| "store key result ((k, v) # cache) =
     (if k = key then (key, result) # cache else (k, v) # store key result cache)"

definition memoize_wrapper ::
  "(string \<Rightarrow> string) \<Rightarrow> ('v \<Rightarrow> string) \<Rightarrow>
     ('v, ('s, (string \<times> 'r) list, 'v, 'r) world, 'r) pyfunc \<Rightarrow>
     ('v, ('s, (string \<times> 'r) list, 'v, 'r) world, 'r) callable" where
  "memoize_wrapper repr_name repr func args kwargs w =
     (let key = memo_key repr_name repr args kwargs in
      case map_of (priv w) key of
        None \<Rightarrow>
          (case call func args kwargs
                  (emit Invoked (py_print (Computing (name func) args) w)) of
             (Inl e, w1) \<Rightarrow> (Inl e, w1)
           | (Inr result, w1) \<Rightarrow> (Inr result, w1\<lparr>priv := store key result (priv w1)\<rparr>))
      | Some result \<Rightarrow> (Inr result, py_print (Cache_hit (name func) args) w))"

definition memoize ::
  "(string \<Rightarrow> string) \<Rightarrow> ('v \<Rightarrow> string) \<Rightarrow>
     ('v, ('s, (string \<times> 'r) list, 'v, 'r) world, 'r) pyfunc \<Rightarrow>
     ('v, ('s, (string \<times> 'r) list, 'v, 'r) world, 'r) pyfunc" where
  "memoize repr_name repr func =
     wraps func
       \<lparr>name = ''wrapper'', doc = None, call = memoize_wrapper repr_name repr func\<rparr>"

text \<open>
  A function that does not call its wrapper, seen in the world of the wrapper: it reads
  and writes the state of its own only.
\<close>

definition on_inner :: "('v, 's, 'r) pyfunc \<Rightarrow> ('v, ('s, 'p, 'v, 'r) world, 'r) pyfunc" where
  "on_inner func =
     \<lparr>name = name func, doc = doc func,
      call = (\<lambda>args kwargs w.
        case call func args kwargs (inner w) of (res, s) \<Rightarrow> (res, w\<lparr>inner := s\<rparr>))\<rparr>"

definition cache_clear ::
  "('s, (string \<times> 'r) list, 'v, 'r) world \<Rightarrow> ('s, (string \<times> 'r) list, 'v, 'r) world" where
  "cache_clear w = w\<lparr>priv := []\<rparr>"

text \<open>\<open>cache_info()\<close>: the size and the keys.\<close>

definition cache_info :: "('s, (string \<times> 'r) list, 'v, 'r) world \<Rightarrow> nat \<times> string list" where
  "cache_info w = (length (priv w), map fst (priv w))"

subsection \<open>9: rate_limit\<close>

text \<open>\<open>priv\<close> is the list \<open>calls\<close> of the times of the calls let through.\<close>

definition rate_limit_wrapper ::
  "int \<Rightarrow> rat \<Rightarrow> ('v, 's, 'r) pyfunc \<Rightarrow> ('v, ('s, rat list, 'v, 'r) world, 'r) callable" where
  "rate_limit_wrapper max_calls time_window func args kwargs w =
     (case time_time w of
        (now, w1) \<Rightarrow>
          (let calls = filter (\<lambda>call_time. now - call_time < time_window) (priv w1) in
           if max_calls \<le> int (length calls)
           then (Inl (ExcRateLimit max_calls time_window), w1\<lparr>priv := calls\<rparr>)
           else invoke func args kwargs (w1\<lparr>priv := calls @ [now]\<rparr>)))"

definition rate_limit ::
  "int \<Rightarrow> rat \<Rightarrow> ('v, 's, 'r) pyfunc \<Rightarrow> ('v, ('s, rat list, 'v, 'r) world, 'r) pyfunc" where
  "rate_limit max_calls time_window func =
     wraps func
       \<lparr>name = ''wrapper'', doc = None,
        call = rate_limit_wrapper max_calls time_window func\<rparr>"

subsection \<open>The functions the source decorates\<close>

text \<open>
  Each function is given undecorated; the decorated form of the source is the decorator
  applied to it. Where both are needed, \<open>f_wrapped\<close> is the undecorated function (what
  \<open>f.__wrapped__\<close> is in the source) and \<open>f\<close> the decorated one. \<open>say_hello\<close> is
  given for a \<open>str\<close> argument and owns the lines it has printed; \<open>greet\<close> takes the
  \<open>str\<close> of its argument, which is the argument itself when it is a \<open>str\<close>.
  \<open>unreliable_function\<close> owns the values \<open>random.random()\<close> is going to return.
\<close>

fun say_hello_body :: "string list \<Rightarrow> string list \<Rightarrow> (pyexn + pyval) \<times> string list" where
  "say_hello_body [n] out = (Inr VNone, out @ [''Hello, '' @ n @ ''!''])"
| "say_hello_body args out = (Inl (ExcArity ''say_hello''), out)"

definition say_hello :: "(string, string list, pyval) pyfunc" where
  "say_hello =
     \<lparr>name = ''say_hello'', doc = None,
      call = py_def ''say_hello'' [required ''name''] say_hello_body\<rparr>"

fun greet_body :: "('v \<Rightarrow> string) \<Rightarrow> 'v list \<Rightarrow> 's \<Rightarrow> (pyexn + string) \<times> 's" where
  "greet_body to_str [n] s = (Inr (''Hello, '' @ to_str n @ ''!''), s)"
| "greet_body to_str args s = (Inl (ExcArity ''greet''), s)"

definition greet :: "('v \<Rightarrow> string) \<Rightarrow> ('v, 's, string) pyfunc" where
  "greet to_str =
     \<lparr>name = ''greet'', doc = Some ''Greets a person by name'',
      call = py_def ''greet'' [required ''name''] (greet_body to_str)\<rparr>"

fun unreliable_function_body ::
  "'v list \<Rightarrow> (nat \<Rightarrow> rat) \<Rightarrow> (pyexn + pyval) \<times> (nat \<Rightarrow> rat)" where
  "unreliable_function_body args random =
     (if random 0 < 7 / 10
      then (Inl (PyExn ''Exception'' ''Random failure!''), \<lambda>n. random (Suc n))
      else (Inr (VStr ''Success!''), \<lambda>n. random (Suc n)))"

definition unreliable_function :: "('v, nat \<Rightarrow> rat, pyval) pyfunc" where
  "unreliable_function =
     \<lparr>name = ''unreliable_function'', doc = Some ''Function that fails randomly'',
      call = py_def ''unreliable_function'' [] unreliable_function_body\<rparr>"

fun create_user_body :: "pyval list \<Rightarrow> 's \<Rightarrow> (pyexn + pyval) \<times> 's" where
  "create_user_body [n, age, email] s =
     (Inr (VDict [(''name'', n), (''age'', age), (''email'', email)]), s)"
| "create_user_body args s = (Inl (ExcArity ''create_user''), s)"

definition create_user_sig :: "pyval param list" where
  "create_user_sig = [required ''name'', required ''age'', required ''email'']"

definition create_user_wrapped :: "(pyval, 's, pyval) pyfunc" where
  "create_user_wrapped =
     \<lparr>name = ''create_user'', doc = Some ''Create a user with validated inputs'',
      call = py_def ''create_user'' create_user_sig create_user_body\<rparr>"

definition create_user :: "(pyval, ('s, unit, pyval, pyval) world, pyval) pyfunc" where
  "create_user =
     validate_types [(''name'', TStr), (''age'', TInt), (''email'', TStr)]
       create_user_sig create_user_wrapped"

fun api_call_body :: "pyval list \<Rightarrow> 's \<Rightarrow> (pyexn + pyval) \<times> 's" where
  "api_call_body args s = (Inr (VStr ''API response''), s)"

definition api_call_wrapped :: "(pyval, 's, pyval) pyfunc" where
  "api_call_wrapped =
     \<lparr>name = ''api_call'', doc = Some ''Simulated API call'',
      call = py_def ''api_call'' [] api_call_body\<rparr>"

definition api_call :: "(pyval, ('s, rat list, pyval, pyval) world, pyval) pyfunc" where
  "api_call = rate_limit 3 10 api_call_wrapped"

text \<open>
  \<open>x * y\<close>: the product of two integers (a \<open>bool\<close> counts as 0 or 1), a string repeated,
  a \<open>TypeError\<close> otherwise.
\<close>

fun as_int :: "pyval \<Rightarrow> int option" where
  "as_int (VInt i) = Some i"
| "as_int (VBool b) = Some (if b then 1 else 0)"
| "as_int v = None"

definition mul_error :: "pyval \<Rightarrow> pyval \<Rightarrow> pyexn" where
  "mul_error x y =
     PyExn ''TypeError''
       (if type_of x = TStr
        then ''can't multiply sequence by non-int of type '' @ quoted (type_name (type_of y))
        else if type_of y = TStr
        then ''can't multiply sequence by non-int of type '' @ quoted (type_name (type_of x))
        else ''unsupported operand type(s) for *: '' @ quoted (type_name (type_of x))
               @ '' and '' @ quoted (type_name (type_of y)))"

definition py_mul :: "pyval \<Rightarrow> pyval \<Rightarrow> pyexn + pyval" where
  "py_mul x y =
     (case (as_int x, as_int y) of
        (Some i, Some j) \<Rightarrow> Inr (VInt (i * j))
      | (Some i, None) \<Rightarrow>
          (case y of
             VStr s \<Rightarrow> Inr (VStr (concat (replicate (nat i) s)))
           | _ \<Rightarrow> Inl (mul_error x y))
      | (None, Some j) \<Rightarrow>
          (case x of
             VStr s \<Rightarrow> Inr (VStr (concat (replicate (nat j) s)))
           | _ \<Rightarrow> Inl (mul_error x y))
      | (None, None) \<Rightarrow> Inl (mul_error x y))"

fun multiply_body :: "pyval list \<Rightarrow> 's \<Rightarrow> (pyexn + pyval) \<times> 's" where
  "multiply_body [x, y] s = (py_mul x y, s)"
| "multiply_body args s = (Inl (ExcArity ''multiply''), s)"

definition multiply_sig :: "pyval param list" where
  "multiply_sig = [required ''x'', required ''y'']"

definition multiply_wrapped :: "(pyval, 's, pyval) pyfunc" where
  "multiply_wrapped =
     \<lparr>name = ''multiply'', doc = Some ''Multiply two numbers with multiple decorators'',
      call = py_def ''multiply'' multiply_sig multiply_body\<rparr>"

text \<open>14: \<open>@timer @log_calls() @validate_types(x=int, y=int)\<close>, the timer outermost.\<close>

definition multiply ::
  "(pyval, ((('s, unit, pyval, pyval) world, unit, pyval, pyval) world,
      unit, pyval, pyval) world, pyval) pyfunc" where
  "multiply =
     timer (log_calls 20 (validate_types [(''x'', TInt), (''y'', TInt)] multiply_sig multiply_wrapped))"

subsection \<open>Worlds to start from\<close>

definition fresh :: "'s \<Rightarrow> 'p \<Rightarrow> (nat \<Rightarrow> rat) \<Rightarrow> ('s, 'p, 'v, 'r) world" where
  "fresh s p c = \<lparr>inner = s, priv = p, trace = [], clock = c, reads = 0\<rparr>"

text \<open>
  A clock that reads 0, 1, 2, ...; values of \<open>random.random()\<close> that make
  \<open>unreliable_function\<close> fail twice and then succeed, and that make it fail for ever.
\<close>

definition ticking :: "nat \<Rightarrow> rat" where
  "ticking i = of_nat i"

definition two_failures :: "nat \<Rightarrow> rat" where
  "two_failures i = (if i < 2 then 0 else 1)"

definition only_failures :: "nat \<Rightarrow> rat" where
  "only_failures i = 0"

definition two_failures_world :: "(nat \<Rightarrow> rat, unit, pyval, pyval) world" where
  "two_failures_world = fresh two_failures () ticking"

definition only_failures_world :: "(nat \<Rightarrow> rat, unit, pyval, pyval) world" where
  "only_failures_world = fresh only_failures () ticking"

text \<open>
  A clock that reads 0, 1, 2, 3 and then 12; and a world of \<open>api_call\<close> in which
  three calls have been let through at the times 0, 1 and 2, about to read the time 3.
\<close>

definition burst :: "nat \<Rightarrow> rat" where
  "burst i = (if i < 4 then of_nat i else 12)"

definition full_window :: "(unit, rat list, pyval, pyval) world" where
  "full_window = \<lparr>inner = (), priv = [0, 1, 2], trace = [], clock = ticking, reads = 3\<rparr>"

text \<open>
  A parameter with a default, and the signature of \<open>retry\<close> itself (line 90), both of
  whose parameters have one.
\<close>

definition optional :: "string \<Rightarrow> 'v \<Rightarrow> 'v param" where
  "optional p d = \<lparr>pname = p, pdefault = Some d\<rparr>"

definition retry_sig :: "pyval param list" where
  "retry_sig = [optional ''max_attempts'' (VInt 3), optional ''delay'' (VInt 1)]"

text \<open>
  The keyword arguments \<open>name="John", age=..., email="x@y.com"\<close> of a call of
  \<open>create_user\<close>.
\<close>

definition john :: "pyval \<Rightarrow> (string \<times> pyval) list" where
  "john age = [(''name'', VStr ''John''), (''age'', age), (''email'', VStr ''x@y.com'')]"

text \<open>
  A world for the decorated \<open>multiply\<close>: one world for each of its three wrappers,
  the timer's outermost.
\<close>

definition multiply_world ::
  "(((unit, unit, pyval, pyval) world, unit, pyval, pyval) world, unit, pyval, pyval) world" where
  "multiply_world = fresh (fresh (fresh () () ticking) () ticking) () ticking"

text \<open>
  Values to memoize on. \<open>repr_int\<close> is the \<open>repr\<close> of an \<open>int\<close>, its decimal
  digits. \<open>add_numbers_wrapped\<close> is \<open>add_numbers\<close> for \<open>int\<close> arguments. \<open>Tag\<close> is a class of the
  caller's, not of the source: \<open>__str__\<close> returns the label of the instance and
  \<open>__repr__\<close> returns \<open><Tag>\<close> for every instance.
\<close>

function decimal :: "nat \<Rightarrow> string" where
  "decimal n =
     (if n < 10 then [''0123456789'' ! n]
      else decimal (n div 10) @ [''0123456789'' ! (n mod 10)])"
  by pat_completeness auto
termination
  by (relation "measure id") auto

declare decimal.simps [simp del]

definition repr_int :: "int \<Rightarrow> string" where
  "repr_int i = (if i < 0 then ''-'' @ decimal (nat (- i)) else decimal (nat i))"

text \<open>
  \<open>fibonacci\<close>, decorated with \<open>memoize\<close>: its two recursive calls go through the
  wrapper, \<open>self\<close> in \<open>fibonacci_body\<close>. \<open>fibonacci limit\<close> is the decorated function
  when \<open>limit\<close> nested calls of it are still allowed; a call beyond raises
  \<open>RecursionError\<close>, as the interpreter does at its recursion limit (which of the frames
  raises it is not modelled). \<open>recursion_depth\<close> is the depth of the examples: the
  interpreter's default limit of 1000 frames, two frames for each nested call.
\<close>

fun fibonacci_body ::
  "(int, 's, int) callable \<Rightarrow> int list \<Rightarrow> 's \<Rightarrow> (pyexn + int) \<times> 's" where
  "fibonacci_body self [n] w =
     (if n < 2 then (Inr n, w)
      else (case self [n - 1] [] w of
              (Inl e, w1) \<Rightarrow> (Inl e, w1)
            | (Inr a, w1) \<Rightarrow>
                (case self [n - 2] [] w1 of
                   (Inl e, w2) \<Rightarrow> (Inl e, w2)
                 | (Inr b, w2) \<Rightarrow> (Inr (a + b), w2))))"
| "fibonacci_body self args w = (Inl (ExcArity ''fibonacci''), w)"

definition fibonacci_wrapped :: "(int, 's, int) callable \<Rightarrow> (int, 's, int) pyfunc" where
  "fibonacci_wrapped self =
     \<lparr>name = ''fibonacci'',
      doc = Some ''Calculate fibonacci number (expensive recursive version)'',
      call = py_def ''fibonacci'' [required ''n''] (fibonacci_body self)\<rparr>"

primrec fibonacci ::
  "nat \<Rightarrow> (int, (unit, (string \<times> int) list, int, int) world, int) pyfunc" where
  "fibonacci 0 =
     \<lparr>name = ''fibonacci'',
      doc = Some ''Calculate fibonacci number (expensive recursive version)'',
      call = (\<lambda>args kwargs w.
        (Inl (PyExn ''RecursionError'' ''maximum recursion depth exceeded''), w))\<rparr>"
| "fibonacci (Suc limit) =
     memoize quoted repr_int (fibonacci_wrapped (call (fibonacci limit)))"

definition recursion_depth :: nat where
  "recursion_depth = 499"

fun add_numbers_body :: "int list \<Rightarrow> 's \<Rightarrow> (pyexn + int) \<times> 's" where
  "add_numbers_body [a, b] s = (Inr (a + b), s)"
| "add_numbers_body args s = (Inl (ExcArity ''add_numbers''), s)"

definition add_numbers_wrapped :: "(int, 's, int) pyfunc" where
  "add_numbers_wrapped =
     \<lparr>name = ''add_numbers'', doc = Some ''Add two numbers'',
      call = py_def ''add_numbers'' [required ''a'', required ''b''] add_numbers_body\<rparr>"

datatype tag = Tag string

fun tag_str :: "tag \<Rightarrow> string" where
  "tag_str (Tag label) = label"

definition tag_repr :: "tag \<Rightarrow> string" where
  "tag_repr t = ''<Tag>''"

text \<open>Worlds with an empty cache.\<close>

definition add_numbers_world :: "(unit, (string \<times> int) list, int, int) world" where
  "add_numbers_world = fresh () [] ticking"

definition fibonacci_world :: "(unit, (string \<times> int) list, int, int) world" where
  "fibonacci_world = fresh () [] ticking"

definition greet_world :: "(unit, (string \<times> string) list, tag, string) world" where
  "greet_world = fresh () [] ticking"

definition unreliable_world :: "(nat \<Rightarrow> rat, (string \<times> pyval) list, int, pyval) world" where
  "unreliable_world = fresh only_failures [] ticking"

section \<open>Properties\<close>

subsection \<open>Effects and outcomes\<close>

lemma sleeps_append: "sleeps (xs @ ys) = sleeps xs @ sleeps ys"
  by (induction xs rule: sleeps.induct) auto

lemma printed_append: "printed (xs @ ys) = printed xs @ printed ys"
  by (induction xs rule: printed.induct) auto

lemma logged_append: "logged (xs @ ys) = logged xs @ logged ys"
  by (induction xs rule: logged.induct) auto

lemma invoke_simps:
  "fst (invoke func args kwargs w) = fst (call func args kwargs (inner w))"
  "inner (snd (invoke func args kwargs w)) = snd (call func args kwargs (inner w))"
  "trace (snd (invoke func args kwargs w)) = trace w @ [Invoked]"
  "priv (snd (invoke func args kwargs w)) = priv w"
  "clock (snd (invoke func args kwargs w)) = clock w"
  "reads (snd (invoke func args kwargs w)) = reads w"
  by (simp_all add: invoke_def emit_def split: prod.split)

lemma py_print_simps:
  "inner (py_print t w) = inner w"
  "trace (py_print t w) = trace w @ [Printed t]"
  "priv (py_print t w) = priv w"
  "clock (py_print t w) = clock w"
  "reads (py_print t w) = reads w"
  by (simp_all add: py_print_def emit_def)

lemma outcome_0: "outcome func args kwargs 0 s = fst (call func args kwargs s)"
  by (simp add: outcome_def)

lemma outcome_Suc:
  "outcome func args kwargs (Suc j) s = outcome func args kwargs j (snd (call func args kwargs s))"
  by (simp add: outcome_def)

subsection \<open>retry\<close>

lemma call_retry: "call (retry m delay func) = retry_wrapper m delay func"
  by (simp add: retry_def wraps_def)

text \<open>One failed attempt that is not the last: the line is printed, the wrapper sleeps,
  and the loop goes on with the error remembered.\<close>

lemma retry_loop_fail_step:
  assumes "0 \<le> delay" and "fst (call func args kwargs (inner w)) = Inl e"
    and "attempt < max_attempts - 1"
  shows "retry_loop max_attempts delay func args kwargs (attempt # rest) lastx w =
     retry_loop max_attempts delay func args kwargs rest (Some e)
       (emit (Slept delay) (py_print (Attempt_failed (attempt + 1) e delay)
          (snd (invoke func args kwargs w))))"
proof -
  obtain res w1 where iv: "invoke func args kwargs w = (res, w1)"
    by (cases "invoke func args kwargs w")
  have "res = Inl e"
    using invoke_simps(1) [of func args kwargs w] assms(2) by (simp add: iv)
  with assms(1,3) show ?thesis
    by (simp add: iv time_sleep_def)
qed

text \<open>The loop from attempt \<open>i\<close> on, when the callable fails \<open>n\<close> times and then
  returns, with attempts to spare.\<close>

lemma retry_loop_succeeds:
  assumes "0 \<le> delay"
  shows "\<forall>j<n. isl (outcome func args kwargs j (inner w)) \<Longrightarrow>
     outcome func args kwargs n (inner w) = Inr r \<Longrightarrow> int (i + n) < m \<Longrightarrow>
     fst (retry_loop m delay func args kwargs (map int [i..<nat m]) lastx w) = Inr r
     \<and> inner (snd (retry_loop m delay func args kwargs (map int [i..<nat m]) lastx w))
         = state_after func args kwargs (Suc n) (inner w)
     \<and> invocations (snd (retry_loop m delay func args kwargs (map int [i..<nat m]) lastx w))
         = invocations w + Suc n
     \<and> sleeps (trace (snd (retry_loop m delay func args kwargs (map int [i..<nat m]) lastx w)))
         = sleeps (trace w) @ replicate n delay"
proof (induction n arbitrary: i w lastx)
  case 0
  then have lt: "i < nat m" by simp
  obtain res w1 where iv: "invoke func args kwargs w = (res, w1)"
    by (cases "invoke func args kwargs w")
  have r: "res = Inr r"
    using invoke_simps(1) [of func args kwargs w] "0.prems"(2) by (simp add: iv outcome_0)
  have i: "inner w1 = snd (call func args kwargs (inner w))"
    and t: "trace w1 = trace w @ [Invoked]"
    using invoke_simps [of func args kwargs w] by (simp_all add: iv)
  show ?case
    by (simp add: upt_conv_Cons [OF lt] iv r i t invocations_def sleeps_append)
next
  case (Suc n)
  from Suc.prems(3) have lt: "i < nat m" and att: "int i < m - 1" by simp_all
  from Suc.prems(1) have "isl (outcome func args kwargs 0 (inner w))" by blast
  then obtain e where e: "fst (call func args kwargs (inner w)) = Inl e"
    by (auto simp: outcome_0 isl_def)
  let ?w = "emit (Slept delay) (py_print (Attempt_failed (int i + 1) e delay)
          (snd (invoke func args kwargs w)))"
  have step: "retry_loop m delay func args kwargs (map int [i..<nat m]) lastx w =
     retry_loop m delay func args kwargs (map int [Suc i..<nat m]) (Some e) ?w"
    using retry_loop_fail_step [OF assms e att] by (simp add: upt_conv_Cons [OF lt])
  have inn: "inner ?w = snd (call func args kwargs (inner w))"
    by (simp add: emit_def py_print_simps invoke_simps)
  have tr: "trace ?w
      = trace w @ [Invoked, Printed (Attempt_failed (int i + 1) e delay), Slept delay]"
    by (simp add: emit_def py_print_simps invoke_simps)
  have p1: "\<forall>j<n. isl (outcome func args kwargs j (inner ?w))"
    using Suc.prems(1) by (auto simp: inn outcome_Suc [symmetric])
  have p2: "outcome func args kwargs n (inner ?w) = Inr r"
    using Suc.prems(2) by (simp add: inn outcome_Suc)
  have p3: "int (Suc i + n) < m" using Suc.prems(3) by simp
  from Suc.IH [OF p1 p2 p3, of "Some e"] show ?case
    by (simp add: step inn tr invocations_def sleeps_append replicate_append_same)
qed

text \<open>The loop from attempt \<open>i\<close> on, when the callable fails on each of the \<open>n\<close>
  attempts left.\<close>

lemma retry_loop_all_fail:
  assumes "0 \<le> delay"
  shows "\<forall>j<n. isl (outcome func args kwargs j (inner w)) \<Longrightarrow> nat m = i + n \<Longrightarrow>
     fst (retry_loop m delay func args kwargs (map int [i..<nat m]) lastx w) =
       (case n of
          0 \<Rightarrow> (case lastx of
                  None \<Rightarrow> Inl (PyExn ''TypeError'' ''exceptions must derive from BaseException'')
                | Some e \<Rightarrow> Inl e)
        | Suc k \<Rightarrow> Inl (projl (outcome func args kwargs k (inner w))))
     \<and> inner (snd (retry_loop m delay func args kwargs (map int [i..<nat m]) lastx w))
         = state_after func args kwargs n (inner w)
     \<and> invocations (snd (retry_loop m delay func args kwargs (map int [i..<nat m]) lastx w))
         = invocations w + n
     \<and> sleeps (trace (snd (retry_loop m delay func args kwargs (map int [i..<nat m]) lastx w)))
         = sleeps (trace w) @ replicate (n - 1) delay"
proof (induction n arbitrary: i w lastx)
  case 0
  then show ?case by (simp split: option.split)
next
  case (Suc n)
  from Suc.prems(2) have lt: "i < nat m" by simp
  from Suc.prems(1) have "isl (outcome func args kwargs 0 (inner w))" by blast
  then obtain e where e: "fst (call func args kwargs (inner w)) = Inl e"
    by (auto simp: outcome_0 isl_def)
  show ?case
  proof (cases n)
    case 0
    with Suc.prems(2) have natm: "nat m = Suc i" and att: "\<not> int i < m - 1" by simp_all
    obtain res w1 where iv: "invoke func args kwargs w = (res, w1)"
      by (cases "invoke func args kwargs w")
    have r: "res = Inl e"
      using invoke_simps(1) [of func args kwargs w] e by (simp add: iv)
    have i: "inner w1 = snd (call func args kwargs (inner w))"
      and t: "trace w1 = trace w @ [Invoked]"
      using invoke_simps [of func args kwargs w] by (simp_all add: iv)
    show ?thesis using att e
      by (simp add: 0 natm iv r i t py_print_simps invocations_def sleeps_append outcome_0)
  next
    case (Suc n')
    with Suc.prems(2) have att: "int i < m - 1" by simp
    let ?w = "emit (Slept delay) (py_print (Attempt_failed (int i + 1) e delay)
          (snd (invoke func args kwargs w)))"
    have step: "retry_loop m delay func args kwargs (map int [i..<nat m]) lastx w =
       retry_loop m delay func args kwargs (map int [Suc i..<nat m]) (Some e) ?w"
      using retry_loop_fail_step [OF assms e att] by (simp add: upt_conv_Cons [OF lt])
    have inn: "inner ?w = snd (call func args kwargs (inner w))"
      by (simp add: emit_def py_print_simps invoke_simps)
    have tr: "trace ?w
        = trace w @ [Invoked, Printed (Attempt_failed (int i + 1) e delay), Slept delay]"
      by (simp add: emit_def py_print_simps invoke_simps)
    have p1: "\<forall>j<n. isl (outcome func args kwargs j (inner ?w))"
      using Suc.prems(1) by (auto simp: inn outcome_Suc [symmetric])
    have p2: "nat m = Suc i + n" using Suc.prems(2) by simp
    from Suc.IH [OF p1 p2, of "Some e"] show ?thesis
      by (simp add: step inn tr invocations_def sleeps_append Suc outcome_Suc
          replicate_append_same)
  qed
qed

text \<open>What \<open>unreliable_function\<close> does on the two streams of random values.\<close>

lemma unreliable_call:
  "call unreliable_function [] [] random =
     (if random 0 < 7 / 10
      then (Inl (PyExn ''Exception'' ''Random failure!''), \<lambda>n. random (Suc n))
      else (Inr (VStr ''Success!''), \<lambda>n. random (Suc n)))"
  by (simp add: unreliable_function_def py_def_def bind_def)

lemma outcome_two_failures:
  "outcome unreliable_function [] [] 0 two_failures
     = Inl (PyExn ''Exception'' ''Random failure!'')"
  "outcome unreliable_function [] [] (Suc 0) two_failures
     = Inl (PyExn ''Exception'' ''Random failure!'')"
  "outcome unreliable_function [] [] (Suc (Suc 0)) two_failures = Inr (VStr ''Success!'')"
  by (simp_all add: outcome_def unreliable_call two_failures_def)

lemma outcome_only_failures:
  "outcome unreliable_function [] [] j only_failures
     = Inl (PyExn ''Exception'' ''Random failure!'')"
proof -
  have sh: "(\<lambda>n. only_failures (Suc n)) = only_failures"
    by (simp add: only_failures_def fun_eq_iff)
  have st: "state_after unreliable_function [] [] j only_failures = only_failures"
    by (induction j) (simp_all add: unreliable_call sh)
  show ?thesis by (simp add: outcome_def st unreliable_call) (simp add: only_failures_def)
qed

lemma invocations_fresh: "invocations (fresh s p c) = 0"
  by (simp add: invocations_def fresh_def)

text \<open>
  C1. Let the delay be non-negative, as the retry policy is configured. If the wrapped
  callable fails on its first \<open>k - 1\<close> calls and returns \<open>r\<close> on call \<open>k\<close>, with
  \<open>1 \<le> k \<le> max_attempts\<close>, the call of the wrapper returns \<open>r\<close> and has called the
  callable exactly \<open>k\<close> times. If the callable fails on each of its first \<open>max_attempts\<close>
  calls, the call of the wrapper fails and has called it exactly \<open>max_attempts\<close> times
  (no time when \<open>max_attempts\<close> is not positive).
\<close>

theorem retry_attempts:
  assumes "0 \<le> delay"
  shows "(1 \<le> k \<and> int k \<le> m
          \<and> (\<forall>j<k - 1. isl (outcome func args kwargs j (inner w)))
          \<and> outcome func args kwargs (k - 1) (inner w) = Inr r
        \<longrightarrow> fst (call (retry m delay func) args kwargs w) = Inr r
          \<and> invocations (snd (call (retry m delay func) args kwargs w)) = invocations w + k)
     \<and> ((\<forall>j<nat m. isl (outcome func args kwargs j (inner w)))
        \<longrightarrow> isl (fst (call (retry m delay func) args kwargs w))
          \<and> invocations (snd (call (retry m delay func) args kwargs w))
              = invocations w + nat m)"
proof (intro conjI impI)
  assume h: "1 \<le> k \<and> int k \<le> m
          \<and> (\<forall>j<k - 1. isl (outcome func args kwargs j (inner w)))
          \<and> outcome func args kwargs (k - 1) (inner w) = Inr r"
  then have lt: "int (0 + (k - 1)) < m" by linarith
  from h retry_loop_succeeds [OF assms _ _ lt, of func args kwargs w r None]
  show "fst (call (retry m delay func) args kwargs w) = Inr r"
    and "invocations (snd (call (retry m delay func) args kwargs w)) = invocations w + k"
    by (simp_all add: call_retry retry_wrapper_def py_range_def)
next
  assume h: "\<forall>j<nat m. isl (outcome func args kwargs j (inner w))"
  from retry_loop_all_fail [OF assms h, of m 0 None]
  show "isl (fst (call (retry m delay func) args kwargs w))"
    and "invocations (snd (call (retry m delay func) args kwargs w)) = invocations w + nat m"
    by (simp_all add: call_retry retry_wrapper_def py_range_def split: nat.splits)
qed

text \<open>
  \<open>@retry(max_attempts=3, delay=0.5)\<close> on \<open>unreliable_function\<close>: two failures and a
  success make three calls and return; three failures make three calls and fail.
\<close>

theorem retry_attempts_witness:
  "fst (call (retry 3 (1 / 2) unreliable_function) [] [] two_failures_world)
     = Inr (VStr ''Success!'')
   \<and> invocations (snd (call (retry 3 (1 / 2) unreliable_function) [] []
        two_failures_world)) = 3
   \<and> isl (fst (call (retry 3 (1 / 2) unreliable_function) [] [] only_failures_world))
   \<and> invocations (snd (call (retry 3 (1 / 2) unreliable_function) [] []
        only_failures_world)) = 3"
proof -
  have d: "(0::rat) \<le> 1 / 2" by simp
  have h: "1 \<le> (3::nat) \<and> int 3 \<le> 3
      \<and> (\<forall>j<3 - 1. isl (outcome unreliable_function [] [] j (inner two_failures_world)))
      \<and> outcome unreliable_function [] [] (3 - 1) (inner two_failures_world)
          = Inr (VStr ''Success!'')"
    by (simp add: two_failures_world_def fresh_def outcome_two_failures less_Suc_eq
        eval_nat_numeral)
  have c: "\<forall>j<nat 3. isl (outcome unreliable_function [] [] j (inner only_failures_world))"
    by (simp add: only_failures_world_def fresh_def outcome_only_failures)
  from retry_attempts [OF d, THEN conjunct1, THEN mp, OF h]
    retry_attempts [OF d, THEN conjunct2, THEN mp, OF c]
  show ?thesis
    by (simp add: two_failures_world_def only_failures_world_def invocations_fresh)
qed

text \<open>
  C6, as the code has it. When every one of the \<open>max_attempts \<ge> 1\<close> attempts fails
  (the delay being non-negative), the call of the wrapper fails with the error of the
  last attempt itself: \<open>raise last_exception\<close> raises the very exception the last call
  raised, of the same class and with the same message. There is no \<open>RetryExhausted\<close>
  error and nothing wraps the last error.
\<close>

theorem retry_raises_last_error:
  assumes "0 \<le> delay" and "1 \<le> m"
    and "\<forall>j<nat m. isl (outcome func args kwargs j (inner w))"
  shows "fst (call (retry m delay func) args kwargs w)
           = outcome func args kwargs (nat m - 1) (inner w)"
proof -
  from assms(2) obtain k where k: "nat m = Suc k" by (cases "nat m") simp_all
  with assms(3) have "isl (outcome func args kwargs k (inner w))" by simp
  with retry_loop_all_fail [OF assms(1,3), of m 0 None] show ?thesis
    by (simp add: call_retry retry_wrapper_def py_range_def k)
qed

theorem retry_raises_last_error_witness:
  "fst (call (retry 3 (1 / 2) unreliable_function) [] [] only_failures_world)
     = Inl (PyExn ''Exception'' ''Random failure!'')"
proof -
  have d: "(0::rat) \<le> 1 / 2" and m: "(1::int) \<le> 3" by simp_all
  have c: "\<forall>j<nat 3. isl (outcome unreliable_function [] [] j (inner only_failures_world))"
    by (simp add: only_failures_world_def fresh_def outcome_only_failures)
  from retry_raises_last_error [OF d m c] show ?thesis
    by (simp add: only_failures_world_def fresh_def outcome_only_failures)
qed

text \<open>
  C6 as stated fails: after three failed attempts of \<open>unreliable_function\<close> the error
  that surfaces is an instance of \<open>Exception\<close>, the class \<open>unreliable_function\<close>
  raised, and not of a class \<open>RetryExhausted\<close>.
\<close>

theorem retry_exhausted_counterexample:
  "exn_class (projl (fst (call (retry 3 (1 / 2) unreliable_function) [] []
      only_failures_world))) = ''Exception''
   \<and> exn_class (projl (fst (call (retry 3 (1 / 2) unreliable_function) [] []
      only_failures_world))) \<noteq> ''RetryExhausted''"
  by (simp add: call_retry retry_wrapper_def py_range_def only_failures_world_def fresh_def
      invoke_def emit_def unreliable_call only_failures_def py_print_def time_sleep_def
      eval_nat_numeral)

text \<open>
  C8. With \<open>max_attempts = 1\<close> the call of the wrapper calls the callable once and has
  its outcome, a result or the error it raised, and leaves the state the callable left;
  the wrapper does not sleep, whatever the delay.
\<close>

theorem retry_single_attempt:
  "fst (call (retry 1 delay func) args kwargs w) = fst (call func args kwargs (inner w))
   \<and> inner (snd (call (retry 1 delay func) args kwargs w))
       = snd (call func args kwargs (inner w))
   \<and> invocations (snd (call (retry 1 delay func) args kwargs w)) = Suc (invocations w)
   \<and> sleeps (trace (snd (call (retry 1 delay func) args kwargs w))) = sleeps (trace w)"
proof -
  obtain res w1 where iv: "invoke func args kwargs w = (res, w1)"
    by (cases "invoke func args kwargs w")
  have f: "res = fst (call func args kwargs (inner w))"
    and i: "inner w1 = snd (call func args kwargs (inner w))"
    and t: "trace w1 = trace w @ [Invoked]"
    using invoke_simps [of func args kwargs w] by (simp_all add: iv)
  show ?thesis
    by (cases res) (simp_all add: call_retry retry_wrapper_def py_range_def iv
        f [symmetric] i t invocations_def sleeps_append py_print_simps)
qed

subsection \<open>Names and documentation\<close>

text \<open>
  C7, as the code has it. Every wrapper built with \<open>functools.wraps\<close>
  (\<open>better_decorator\<close>, \<open>timer\<close>, \<open>retry\<close>, \<open>log_calls\<close>, \<open>validate_types\<close>,
  \<open>memoize\<close>, \<open>rate_limit\<close>) has the name and the documentation of the function it
  wraps, whatever that function is. The wrapper of \<open>my_decorator\<close>, which does not use
  \<open>functools.wraps\<close>, is named \<open>wrapper\<close> and has no documentation.
\<close>

theorem wraps_preserves_metadata:
  "name (better_decorator func) = name func \<and> doc (better_decorator func) = doc func
   \<and> name (timer func) = name func \<and> doc (timer func) = doc func
   \<and> name (retry max_attempts delay func) = name func
   \<and> doc (retry max_attempts delay func) = doc func
   \<and> name (log_calls level func) = name func \<and> doc (log_calls level func) = doc func
   \<and> name (validate_types expected_types sig vfunc) = name vfunc
   \<and> doc (validate_types expected_types sig vfunc) = doc vfunc
   \<and> name (memoize repr_name repr mfunc) = name mfunc
   \<and> doc (memoize repr_name repr mfunc) = doc mfunc
   \<and> name (rate_limit max_calls time_window func) = name func
   \<and> doc (rate_limit max_calls time_window func) = doc func
   \<and> name (my_decorator func) = ''wrapper'' \<and> doc (my_decorator func) = None"
  by (simp add: better_decorator_def timer_def retry_def log_calls_def validate_types_def
      memoize_def rate_limit_def my_decorator_def wraps_def)

text \<open>
  C7 as stated fails on \<open>my_decorator\<close>: \<open>say_hello\<close> decorated is no longer named
  \<open>say_hello\<close>, and \<open>greet\<close> decorated with it would lose its documentation.
\<close>

theorem my_decorator_counterexample:
  "name (my_decorator say_hello) \<noteq> name say_hello
   \<and> doc (my_decorator (greet id :: (string, unit, string) pyfunc))
       \<noteq> doc (greet id :: (string, unit, string) pyfunc)"
  by (simp add: my_decorator_def say_hello_def greet_def)

subsection \<open>rate_limit\<close>

lemma call_rate_limit: "call (rate_limit N W func) = rate_limit_wrapper N W func"
  by (simp add: rate_limit_def wraps_def)

lemma rate_limit_reject:
  assumes "N \<le> int (length (filter (\<lambda>t. clock w (reads w) - t < W) (priv w)))"
  shows "call (rate_limit N W func) args kwargs w =
     (Inl (ExcRateLimit N W),
      w\<lparr>reads := Suc (reads w), priv := filter (\<lambda>t. clock w (reads w) - t < W) (priv w)\<rparr>)"
  using assms by (simp add: call_rate_limit rate_limit_wrapper_def time_time_def Let_def)

lemma rate_limit_admit:
  assumes "int (length (filter (\<lambda>t. clock w (reads w) - t < W) (priv w))) < N"
  shows "call (rate_limit N W func) args kwargs w =
     invoke func args kwargs
       (w\<lparr>reads := Suc (reads w),
          priv := filter (\<lambda>t. clock w (reads w) - t < W) (priv w) @ [clock w (reads w)]\<rparr>)"
  using assms by (simp add: call_rate_limit rate_limit_wrapper_def time_time_def Let_def)

lemma rate_limit_admit_parts:
  assumes "int (length (filter (\<lambda>t. clock w (reads w) - t < W) (priv w))) < N"
  shows "fst (call (rate_limit N W func) args kwargs w) = fst (call func args kwargs (inner w))"
    and "inner (snd (call (rate_limit N W func) args kwargs w))
       = snd (call func args kwargs (inner w))"
    and "priv (snd (call (rate_limit N W func) args kwargs w))
       = filter (\<lambda>t. clock w (reads w) - t < W) (priv w) @ [clock w (reads w)]"
    and "trace (snd (call (rate_limit N W func) args kwargs w)) = trace w @ [Invoked]"
    and "clock (snd (call (rate_limit N W func) args kwargs w)) = clock w"
    and "reads (snd (call (rate_limit N W func) args kwargs w)) = Suc (reads w)"
  by (simp_all add: rate_limit_admit [OF assms] invoke_simps)

text \<open>Five calls in a row, three per ten seconds allowed.\<close>

lemma rate_limit_three_per_ten:
  assumes h: "priv w = [] \<and> reads w = 0
       \<and> clock w 0 \<le> clock w 1 \<and> clock w 1 \<le> clock w 2 \<and> clock w 2 \<le> clock w 3
       \<and> clock w 3 - clock w 0 < 10 \<and> 10 \<le> clock w 4 - clock w 0"
  shows "outcome (rate_limit 3 10 func) args kwargs 0 w = outcome func args kwargs 0 (inner w)"
    and "outcome (rate_limit 3 10 func) args kwargs 1 w = outcome func args kwargs 1 (inner w)"
    and "outcome (rate_limit 3 10 func) args kwargs 2 w = outcome func args kwargs 2 (inner w)"
    and "outcome (rate_limit 3 10 func) args kwargs 3 w = Inl (ExcRateLimit 3 10)"
    and "outcome (rate_limit 3 10 func) args kwargs 4 w = outcome func args kwargs 3 (inner w)"
proof -
  let ?R = "rate_limit 3 10 func"
  let ?c = "clock w"
  define w1 where "w1 = snd (call ?R args kwargs w)"
  define w2 where "w2 = snd (call ?R args kwargs w1)"
  define w3 where "w3 = snd (call ?R args kwargs w2)"
  define w4 where "w4 = snd (call ?R args kwargs w3)"
  have a0: "int (length (filter (\<lambda>t. clock w (reads w) - t < 10) (priv w))) < 3"
    using h by simp
  note p0 = rate_limit_admit_parts [OF a0, of func args kwargs]
  have s1: "priv w1 = [?c 0]" "reads w1 = 1" "clock w1 = ?c"
    "inner w1 = state_after func args kwargs 1 (inner w)"
    using h p0 by (simp_all add: w1_def)
  have a1: "int (length (filter (\<lambda>t. clock w1 (reads w1) - t < 10) (priv w1))) < 3"
    by (simp add: s1)
  note p1 = rate_limit_admit_parts [OF a1, of func args kwargs]
  have s2: "priv w2 = [?c 0, ?c 1]" "reads w2 = 2" "clock w2 = ?c"
    "inner w2 = state_after func args kwargs 2 (inner w)"
    using h p1 by (simp_all add: w2_def s1 eval_nat_numeral)
  have a2: "int (length (filter (\<lambda>t. clock w2 (reads w2) - t < 10) (priv w2))) < 3"
    by (simp add: s2)
  note p2 = rate_limit_admit_parts [OF a2, of func args kwargs]
  have s3: "priv w3 = [?c 0, ?c 1, ?c 2]" "reads w3 = 3" "clock w3 = ?c"
    "inner w3 = state_after func args kwargs 3 (inner w)"
    using h p2 by (simp_all add: w3_def s2 eval_nat_numeral)
  have a3: "3 \<le> int (length (filter (\<lambda>t. clock w3 (reads w3) - t < 10) (priv w3)))"
    using h by (simp add: s3)
  note p3 = rate_limit_reject [OF a3, of func args kwargs]
  have s4: "priv w4 = [?c 0, ?c 1, ?c 2]" "reads w4 = 4" "clock w4 = ?c"
    "inner w4 = state_after func args kwargs 3 (inner w)"
    using h p3 by (simp_all add: w4_def s3)
  have "length (filter (\<lambda>t. ?c 4 - t < 10) [?c 1, ?c 2]) \<le> 2"
    by (rule order_trans [OF length_filter_le]) simp
  then have a4: "int (length (filter (\<lambda>t. clock w4 (reads w4) - t < 10) (priv w4))) < 3"
    using h by (simp add: s4)
  note p4 = rate_limit_admit_parts [OF a4, of func args kwargs]
  have st: "state_after ?R args kwargs 1 w = w1" "state_after ?R args kwargs 2 w = w2"
    "state_after ?R args kwargs 3 w = w3" "state_after ?R args kwargs 4 w = w4"
    by (simp_all add: w1_def w2_def w3_def w4_def eval_nat_numeral)
  show "outcome ?R args kwargs 0 w = outcome func args kwargs 0 (inner w)"
    using p0(1) by (simp add: outcome_def)
  show "outcome ?R args kwargs 1 w = outcome func args kwargs 1 (inner w)"
    unfolding outcome_def st s1(4) [symmetric] by (rule p1(1))
  show "outcome ?R args kwargs 2 w = outcome func args kwargs 2 (inner w)"
    unfolding outcome_def st s2(4) [symmetric] by (rule p2(1))
  show "outcome ?R args kwargs 3 w = Inl (ExcRateLimit 3 10)"
    unfolding outcome_def st p3 by simp
  show "outcome ?R args kwargs 4 w = outcome func args kwargs 3 (inner w)"
    unfolding outcome_def st s4(4) [symmetric] by (rule p4(1))
qed

text \<open>
  C4, as the code has it. A call of the wrapper reads the clock and keeps, of the recorded
  times, those less than \<open>time_window\<close> before now (so every time older than the window
  is pruned). If \<open>max_calls\<close> or more remain, the call fails with the rate-limit error,
  which is an instance of \<open>Exception\<close> itself with the message
  \<open>Rate limit exceeded: max_calls calls per time_window seconds\<close> (the source has no
  class \<open>RateLimitExceeded\<close>), and the callable is not called: its state and the trace
  are as before. Otherwise now is recorded and the callable is called, once, and its
  outcome is the outcome of the call. With \<open>max_calls = 3\<close> and \<open>time_window = 10\<close>,
  starting with nothing recorded: three calls whose times lie within 10 seconds are let
  through, a fourth within these 10 seconds fails with that \<open>Exception\<close>, and a call
  10 seconds or more after the first is let through.
\<close>

theorem rate_limit_window:
  "(N \<le> int (length (filter (\<lambda>t. clock w (reads w) - t < W) (priv w))) \<longrightarrow>
      call (rate_limit N W func) args kwargs w =
        (Inl (ExcRateLimit N W),
         w\<lparr>reads := Suc (reads w),
           priv := filter (\<lambda>t. clock w (reads w) - t < W) (priv w)\<rparr>)
      \<and> exn_class (projl (fst (call (rate_limit N W func) args kwargs w))) = ''Exception'')
   \<and> (int (length (filter (\<lambda>t. clock w (reads w) - t < W) (priv w))) < N \<longrightarrow>
      fst (call (rate_limit N W func) args kwargs w) = fst (call func args kwargs (inner w))
      \<and> inner (snd (call (rate_limit N W func) args kwargs w))
          = snd (call func args kwargs (inner w))
      \<and> priv (snd (call (rate_limit N W func) args kwargs w))
          = filter (\<lambda>t. clock w (reads w) - t < W) (priv w) @ [clock w (reads w)]
      \<and> invocations (snd (call (rate_limit N W func) args kwargs w)) = Suc (invocations w))
   \<and> (priv w = [] \<and> reads w = 0
       \<and> clock w 0 \<le> clock w 1 \<and> clock w 1 \<le> clock w 2 \<and> clock w 2 \<le> clock w 3
       \<and> clock w 3 - clock w 0 < 10 \<and> 10 \<le> clock w 4 - clock w 0 \<longrightarrow>
      outcome (rate_limit 3 10 func) args kwargs 0 w = outcome func args kwargs 0 (inner w)
      \<and> outcome (rate_limit 3 10 func) args kwargs 1 w = outcome func args kwargs 1 (inner w)
      \<and> outcome (rate_limit 3 10 func) args kwargs 2 w = outcome func args kwargs 2 (inner w)
      \<and> outcome (rate_limit 3 10 func) args kwargs 3 w = Inl (ExcRateLimit 3 10)
      \<and> exn_class (projl (outcome (rate_limit 3 10 func) args kwargs 3 w)) = ''Exception''
      \<and> outcome (rate_limit 3 10 func) args kwargs 4 w = outcome func args kwargs 3 (inner w))"
proof (intro conjI impI)
  assume h: "priv w = [] \<and> reads w = 0
       \<and> clock w 0 \<le> clock w 1 \<and> clock w 1 \<le> clock w 2 \<and> clock w 2 \<le> clock w 3
       \<and> clock w 3 - clock w 0 < 10 \<and> 10 \<le> clock w 4 - clock w 0"
  note s = rate_limit_three_per_ten [OF h, of func args kwargs]
  show "outcome (rate_limit 3 10 func) args kwargs 0 w = outcome func args kwargs 0 (inner w)"
    by (rule s(1))
  show "outcome (rate_limit 3 10 func) args kwargs 1 w = outcome func args kwargs 1 (inner w)"
    by (rule s(2))
  show "outcome (rate_limit 3 10 func) args kwargs 2 w = outcome func args kwargs 2 (inner w)"
    by (rule s(3))
  show "outcome (rate_limit 3 10 func) args kwargs 3 w = Inl (ExcRateLimit 3 10)"
    by (rule s(4))
  show "exn_class (projl (outcome (rate_limit 3 10 func) args kwargs 3 w)) = ''Exception''"
    by (simp add: s(4))
  show "outcome (rate_limit 3 10 func) args kwargs 4 w = outcome func args kwargs 3 (inner w)"
    by (rule s(5))
qed (simp_all add: rate_limit_reject rate_limit_admit_parts invocations_def)

lemma call_api_call_wrapped: "call api_call_wrapped [] [] s = (Inr (VStr ''API response''), s)"
  by (simp add: api_call_wrapped_def py_def_def bind_def)

lemma outcome_api_call: "outcome api_call_wrapped [] [] j s = Inr (VStr ''API response'')"
proof -
  have "state_after api_call_wrapped [] [] j s = s"
    by (induction j) (simp_all add: call_api_call_wrapped)
  then show ?thesis by (simp add: outcome_def call_api_call_wrapped)
qed

theorem rate_limit_window_witness:
  "outcome api_call [] [] 0 (fresh () [] burst) = Inr (VStr ''API response'')
   \<and> outcome api_call [] [] 1 (fresh () [] burst) = Inr (VStr ''API response'')
   \<and> outcome api_call [] [] 2 (fresh () [] burst) = Inr (VStr ''API response'')
   \<and> outcome api_call [] [] 3 (fresh () [] burst) = Inl (ExcRateLimit 3 10)
   \<and> outcome api_call [] [] 4 (fresh () [] burst) = Inr (VStr ''API response'')
   \<and> call api_call [] [] full_window
       = (Inl (ExcRateLimit 3 10), full_window\<lparr>reads := 4\<rparr>)
   \<and> priv (snd (call api_call [] [] (fresh () [] burst))) = [0]
   \<and> invocations (snd (call api_call [] [] (fresh () [] burst))) = 1"
proof -
  let ?w = "fresh () [] burst :: (unit, rat list, pyval, pyval) world"
  have h3: "priv ?w = [] \<and> reads ?w = 0
       \<and> clock ?w 0 \<le> clock ?w 1 \<and> clock ?w 1 \<le> clock ?w 2 \<and> clock ?w 2 \<le> clock ?w 3
       \<and> clock ?w 3 - clock ?w 0 < 10 \<and> 10 \<le> clock ?w 4 - clock ?w 0"
    by (simp add: fresh_def burst_def)
  have h1: "3 \<le> int (length (filter (\<lambda>t. clock full_window (reads full_window) - t < 10)
      (priv full_window)))"
    by (simp add: full_window_def ticking_def)
  have h2: "int (length (filter (\<lambda>t. clock ?w (reads ?w) - t < 10) (priv ?w))) < 3"
    by (simp add: fresh_def)
  from rate_limit_window [of 3 full_window 10 api_call_wrapped "[]" "[]", THEN conjunct1, THEN mp, OF h1]
    rate_limit_window [of 3 ?w 10 api_call_wrapped "[]" "[]", THEN conjunct2, THEN conjunct1, THEN mp, OF h2]
    rate_limit_window [of 3 ?w 10 api_call_wrapped "[]" "[]", THEN conjunct2, THEN conjunct2, THEN mp, OF h3]
  show ?thesis
    by (simp add: api_call_def outcome_api_call)
       (simp add: full_window_def ticking_def fresh_def burst_def invocations_def)
qed

text \<open>
  C4 as stated fails in the kind of the error: the fourth call of \<open>api_call\<close> within
  the window raises an instance of \<open>Exception\<close>, not of a class \<open>RateLimitExceeded\<close>.
\<close>

theorem rate_limit_exceeded_counterexample:
  "outcome api_call [] [] 3 (fresh () [] burst) = Inl (ExcRateLimit 3 10)
   \<and> exn_class (projl (outcome api_call [] [] 3 (fresh () [] burst))) = ''Exception''
   \<and> exn_class (projl (outcome api_call [] [] 3 (fresh () [] burst))) \<noteq> ''RateLimitExceeded''"
proof -
  let ?w = "fresh () [] burst :: (unit, rat list, pyval, pyval) world"
  have h: "priv ?w = [] \<and> reads ?w = 0
       \<and> clock ?w 0 \<le> clock ?w 1 \<and> clock ?w 1 \<le> clock ?w 2 \<and> clock ?w 2 \<le> clock ?w 3
       \<and> clock ?w 3 - clock ?w 0 < 10 \<and> 10 \<le> clock ?w 4 - clock ?w 0"
    by (simp add: fresh_def burst_def)
  from rate_limit_three_per_ten(4) [OF h, of api_call_wrapped "[]" "[]"]
  show ?thesis by (simp add: api_call_def)
qed

lemma keeps_older:
  assumes "now \<le> (now' :: rat)"
  shows "filter (\<lambda>t. now - t < W \<and> now' - t < W) xs = filter (\<lambda>t. now' - t < W) xs"
proof (rule filter_cong [OF refl])
  fix t
  from assms show "(now - t < W \<and> now' - t < W) = (now' - t < W)" by auto
qed

text \<open>
  C10. A call that is rejected (\<open>max_calls\<close> or more recorded times lie within the
  window) records no time: the call window afterwards is the old one without the times that
  have left the window, and the callable and the trace are untouched. If the clock does not
  run backwards, any next call does exactly what it would have done had the rejected call
  not been made (but for the reading of the clock it used up).
\<close>

theorem rate_limit_rejection:
  assumes "N \<le> int (length (filter (\<lambda>t. clock w (reads w) - t < W) (priv w)))"
  shows "fst (call (rate_limit N W func) args kwargs w) = Inl (ExcRateLimit N W)
    \<and> priv (snd (call (rate_limit N W func) args kwargs w))
        = filter (\<lambda>t. clock w (reads w) - t < W) (priv w)
    \<and> length (priv (snd (call (rate_limit N W func) args kwargs w))) \<le> length (priv w)
    \<and> inner (snd (call (rate_limit N W func) args kwargs w)) = inner w
    \<and> trace (snd (call (rate_limit N W func) args kwargs w)) = trace w
    \<and> (clock w (reads w) \<le> clock w (Suc (reads w)) \<longrightarrow>
         call (rate_limit N W func) args' kwargs' (snd (call (rate_limit N W func) args kwargs w))
           = call (rate_limit N W func) args' kwargs' (w\<lparr>reads := Suc (reads w)\<rparr>))"
proof -
  note rj = rate_limit_reject [OF assms, of func args kwargs]
  have "clock w (reads w) \<le> clock w (Suc (reads w)) \<Longrightarrow>
         call (rate_limit N W func) args' kwargs' (snd (call (rate_limit N W func) args kwargs w))
           = call (rate_limit N W func) args' kwargs' (w\<lparr>reads := Suc (reads w)\<rparr>)"
    unfolding rj snd_conv
    by (simp add: call_rate_limit rate_limit_wrapper_def time_time_def Let_def keeps_older)
  then show ?thesis by (simp add: rj)
qed

theorem rate_limit_rejection_witness:
  "fst (call api_call [] [] full_window) = Inl (ExcRateLimit 3 10)
   \<and> priv (snd (call api_call [] [] full_window)) = [0, 1, 2]
   \<and> trace (snd (call api_call [] [] full_window)) = []
   \<and> call api_call [] [] (snd (call api_call [] [] full_window))
       = call api_call [] [] (full_window\<lparr>reads := 4\<rparr>)"
proof -
  have h1: "3 \<le> int (length (filter (\<lambda>t. clock full_window (reads full_window) - t < 10)
      (priv full_window)))"
    by (simp add: full_window_def ticking_def)
  have m: "clock full_window (reads full_window) \<le> clock full_window (Suc (reads full_window))"
    by (simp add: full_window_def ticking_def)
  from rate_limit_rejection [OF h1, of api_call_wrapped "[]" "[]" "[]" "[]"] m
  show ?thesis
    by (simp add: api_call_def) (simp add: full_window_def ticking_def)
qed

subsection \<open>validate_types\<close>

lemma call_validate_types:
  "call (validate_types E sig func) = validate_types_wrapper E sig func"
  by (simp add: validate_types_def wraps_def)

lemma check_types_Some:
  "check_types E arguments = Some e \<Longrightarrow>
     \<exists>p t v. (p, t) \<in> set E \<and> arguments p = Some v \<and> \<not> isinstance v t
        \<and> e = type_error p t v"
  by (induction E arguments rule: check_types.induct)
     (auto split: option.splits if_splits)

lemma check_types_None:
  "check_types E arguments = None \<longleftrightarrow>
     (\<forall>(p, t) \<in> set E. \<forall>v. arguments p = Some v \<longrightarrow> isinstance v t)"
  by (induction E arguments rule: check_types.induct)
     (auto split: option.splits if_splits)

lemma bind_positional_Inr:
  "bind_positional sig args kwargs = Inr (b, rest) \<Longrightarrow>
     length args \<le> length sig \<and> b = zip (map pname sig) args \<and> rest = drop (length args) sig"
  by (induction sig args kwargs arbitrary: b rest rule: bind_positional.induct)
     (auto split: if_splits sum.splits)

lemma bind_keywords_Inr:
  "bind_keywords ps kwargs = Inr b \<Longrightarrow>
     b = map (\<lambda>p. (pname p, case map_of kwargs (pname p) of Some v \<Rightarrow> v
                                  | None \<Rightarrow> the (pdefault p))) ps
     \<and> (\<forall>p \<in> set ps. map_of kwargs (pname p) = None \<longrightarrow> pdefault p \<noteq> None)"
  by (induction ps kwargs arbitrary: b rule: bind_keywords.induct)
     (auto split: option.splits sum.splits)

lemma bind_Inr:
  assumes "bind sig args kwargs = Inr bound"
  shows "length args \<le> length sig"
    and "map fst bound = map pname sig"
    and "map snd bound = args @ map (\<lambda>p. case map_of kwargs (pname p) of Some v \<Rightarrow> v
                                  | None \<Rightarrow> the (pdefault p)) (drop (length args) sig)"
    and "\<forall>p \<in> set (drop (length args) sig).
           map_of kwargs (pname p) = None \<longrightarrow> pdefault p \<noteq> None"
proof -
  from assms obtain b1 rest b2 where
    1: "bind_positional sig args kwargs = Inr (b1, rest)" and
    2: "bind_keywords rest kwargs = Inr b2" and 3: "bound = b1 @ b2"
    by (auto simp: bind_def split: sum.splits list.splits)
  note p = bind_positional_Inr [OF 1] and k = bind_keywords_Inr [OF 2]
  from p show "length args \<le> length sig" by simp
  have "map fst bound = map pname (take (length args) sig) @ map pname (drop (length args) sig)"
    using p k by (simp add: 3 comp_def map_fst_zip_take min_def take_map)
  then show "map fst bound = map pname sig"
    by (simp only: map_append [symmetric] append_take_drop_id)
  show "map snd bound = args @ map (\<lambda>p. case map_of kwargs (pname p) of Some v \<Rightarrow> v
                                  | None \<Rightarrow> the (pdefault p)) (drop (length args) sig)"
    using p k by (simp add: 3 comp_def map_snd_zip_take min_def)
  from p k show "\<forall>p \<in> set (drop (length args) sig).
           map_of kwargs (pname p) = None \<longrightarrow> pdefault p \<noteq> None" by simp
qed


text \<open>When binding succeeds, and with what.\<close>

lemma bind_positional_succeeds:
  "length args \<le> length sig \<Longrightarrow>
   \<forall>p \<in> set (take (length args) sig). pname p \<notin> fst ` set kwargs \<Longrightarrow>
   bind_positional sig args kwargs = Inr (zip (map pname sig) args, drop (length args) sig)"
  by (induction sig args kwargs rule: bind_positional.induct) auto

lemma bind_keywords_succeeds:
  "\<forall>p \<in> set ps. map_of kwargs (pname p) = None \<longrightarrow> pdefault p \<noteq> None \<Longrightarrow>
   bind_keywords ps kwargs
     = Inr (map (\<lambda>p. (pname p, case map_of kwargs (pname p) of Some v \<Rightarrow> v
                                   | None \<Rightarrow> the (pdefault p))) ps)"
  by (induction ps kwargs rule: bind_keywords.induct) (auto split: option.splits)

lemma zip_names_values:
  assumes "length args \<le> length sig"
  shows "zip (map pname sig) args @ map (\<lambda>p. (pname p, f p)) (drop (length args) sig)
       = zip (map pname sig) (args @ map f (drop (length args) sig))"
proof -
  have "zip (map pname sig) (args @ map f (drop (length args) sig))
      = zip (map pname (take (length args) sig) @ map pname (drop (length args) sig))
          (args @ map f (drop (length args) sig))"
    by (simp only: map_append [symmetric] append_take_drop_id)
  also have "\<dots> = zip (map pname (take (length args) sig)) args
      @ zip (map pname (drop (length args) sig)) (map f (drop (length args) sig))"
    using assms by (simp add: zip_append min_def)
  also have "zip (map pname (take (length args) sig)) args = zip (map pname sig) args"
  proof -
    have "zip (take (length args) (map pname sig)) args
        = take (length args) (zip (map pname sig) args)"
      by (simp add: take_zip)
    then show ?thesis by (simp add: take_map)
  qed
  also have "zip (map pname (drop (length args) sig)) (map f (drop (length args) sig))
      = map (\<lambda>p. (pname p, f p)) (drop (length args) sig)"
    by (simp add: zip_map_map zip_same_conv_map)
  finally show ?thesis by simp
qed

lemma bind_succeeds:
  assumes "length args \<le> length sig"
    and "\<forall>p \<in> set (take (length args) sig). pname p \<notin> fst ` set kwargs"
    and "\<forall>p \<in> set (drop (length args) sig).
           map_of kwargs (pname p) = None \<longrightarrow> pdefault p \<noteq> None"
    and "fst ` set kwargs \<subseteq> pname ` set (drop (length args) sig)"
  shows "bind sig args kwargs
       = Inr (zip (map pname sig)
           (args @ map (\<lambda>p. case map_of kwargs (pname p) of Some v \<Rightarrow> v
                             | None \<Rightarrow> the (pdefault p)) (drop (length args) sig)))"
proof -
  have f: "filter (\<lambda>kv. fst kv \<notin> pname ` set (drop (length args) sig)) kwargs = []"
    using assms(4) by (auto simp: filter_empty_conv)
  show ?thesis
    by (simp add: bind_def bind_positional_succeeds [OF assms(1,2)]
        bind_keywords_succeeds [OF assms(3)] f zip_names_values [OF assms(1)])
qed

lemma bind_retry_sig:
  "bind retry_sig [] [(''delay'', VInt 2)] = Inr [(''max_attempts'', VInt 3), (''delay'', VInt 2)]"
  "bind retry_sig [VInt 5] [] = Inr [(''max_attempts'', VInt 5), (''delay'', VInt 1)]"
  by (simp_all add: bind_def retry_sig_def optional_def)

lemma bind_john:
  "bind create_user_sig [] (john age) = Inr (john age)"
  by (simp add: bind_def create_user_sig_def required_def john_def)

lemma call_create_user_wrapped:
  "call create_user_wrapped [] (john age) s = (Inr (VDict (john age)), s)"
  by (simp add: create_user_wrapped_def py_def_def bind_john) (simp add: john_def)

lemma invoke_create_user_wrapped:
  "invoke create_user_wrapped [] (john age) w = (Inr (VDict (john age)), emit Invoked w)"
  by (simp add: invoke_def call_create_user_wrapped emit_def)

lemma check_types_john:
  "check_types [(''name'', TStr), (''age'', TInt), (''email'', TStr)] (map_of (john (VInt 30)))
     = None"
  "check_types [(''name'', TStr), (''age'', TInt), (''email'', TStr)]
     (map_of (john (VStr ''thirty''))) = Some (PyExn ''TypeError'' ''age must be int, got str'')"
  by (simp_all add: john_def isinstance_def type_error_def)

text \<open>
  C5. The arguments bind to the parameters of the signature when there are no more
  positional arguments than parameters, no parameter bound positionally is also given by
  keyword, every other parameter has a keyword argument or a default, and every keyword
  names one of these other parameters. Then every parameter is bound, in the order of the
  signature: the positional arguments first, then for each remaining parameter its keyword
  argument or else its default; and when binding succeeds at all, it is with these values.
  If one of the configured parameters is bound to a value that is not an instance of its
  configured type, the call fails with a \<open>TypeError\<close> whose message names such a
  parameter, its configured type and the type of the value, and the callable is not
  called: the world is as before. If every configured parameter that is bound has a value
  of its type, the callable is called and the outcome is its outcome.
  \<open>create_user(name="John", age=30, email="x@y.com")\<close> returns the user; with
  \<open>age="thirty"\<close> it fails with \<open>age must be int, got str\<close>. A default is bound and
  checked like an argument: on the signature \<open>(max_attempts=3, delay=1)\<close>, the call with
  the one argument 5 binds \<open>delay\<close> to 1, and fails with \<open>delay must be str, got int\<close>
  when \<open>delay\<close> is configured as \<open>str\<close>.
\<close>

theorem validate_types_checks:
  "(length args \<le> length sig
      \<and> (\<forall>p \<in> set (take (length args) sig). pname p \<notin> fst ` set kwargs)
      \<and> (\<forall>p \<in> set (drop (length args) sig).
            map_of kwargs (pname p) = None \<longrightarrow> pdefault p \<noteq> None)
      \<and> fst ` set kwargs \<subseteq> pname ` set (drop (length args) sig) \<longrightarrow>
      bind sig args kwargs
        = Inr (zip (map pname sig)
            (args @ map (\<lambda>p. case map_of kwargs (pname p) of Some v \<Rightarrow> v
                              | None \<Rightarrow> the (pdefault p)) (drop (length args) sig))))
   \<and> (bind sig args kwargs = Inr bound \<longrightarrow>
      map fst bound = map pname sig
      \<and> map snd bound
          = args @ map (\<lambda>p. case map_of kwargs (pname p) of Some v \<Rightarrow> v
                               | None \<Rightarrow> the (pdefault p)) (drop (length args) sig)
      \<and> (\<forall>p \<in> set (drop (length args) sig).
            map_of kwargs (pname p) = None \<longrightarrow> pdefault p \<noteq> None))
   \<and> (bind sig args kwargs = Inr bound
       \<and> (\<exists>(p, t) \<in> set E. \<exists>v. map_of bound p = Some v \<and> \<not> isinstance v t) \<longrightarrow>
      (\<exists>p t v. (p, t) \<in> set E \<and> map_of bound p = Some v \<and> \<not> isinstance v t
         \<and> call (validate_types E sig func) args kwargs w = (Inl (type_error p t v), w)))
   \<and> (bind sig args kwargs = Inr bound
       \<and> (\<forall>(p, t) \<in> set E. \<forall>v. map_of bound p = Some v \<longrightarrow> isinstance v t) \<longrightarrow>
      call (validate_types E sig func) args kwargs w = invoke func args kwargs w)
   \<and> call create_user [] (john (VInt 30)) (fresh s () c)
       = (Inr (VDict (john (VInt 30))), emit Invoked (fresh s () c))
   \<and> call create_user [] (john (VStr ''thirty'')) (fresh s () c)
       = (Inl (PyExn ''TypeError'' ''age must be int, got str''), fresh s () c)
   \<and> bind retry_sig [] [(''delay'', VInt 2)]
       = Inr [(''max_attempts'', VInt 3), (''delay'', VInt 2)]
   \<and> bind retry_sig [VInt 5] [] = Inr [(''max_attempts'', VInt 5), (''delay'', VInt 1)]
   \<and> call (validate_types [(''max_attempts'', TInt), (''delay'', TStr)] retry_sig func)
         [VInt 5] [] w
       = (Inl (PyExn ''TypeError'' ''delay must be str, got int''), w)
   \<and> call (validate_types [(''max_attempts'', TInt), (''delay'', TInt)] retry_sig func)
         [VInt 5] [] w
       = invoke func [VInt 5] [] w"
proof (intro conjI impI)
  assume "length args \<le> length sig
      \<and> (\<forall>p \<in> set (take (length args) sig). pname p \<notin> fst ` set kwargs)
      \<and> (\<forall>p \<in> set (drop (length args) sig).
            map_of kwargs (pname p) = None \<longrightarrow> pdefault p \<noteq> None)
      \<and> fst ` set kwargs \<subseteq> pname ` set (drop (length args) sig)"
  then show "bind sig args kwargs
        = Inr (zip (map pname sig)
            (args @ map (\<lambda>p. case map_of kwargs (pname p) of Some v \<Rightarrow> v
                              | None \<Rightarrow> the (pdefault p)) (drop (length args) sig)))"
    by (intro bind_succeeds) simp_all
next
  assume "bind sig args kwargs = Inr bound"
  from bind_Inr [OF this]
  show "map fst bound = map pname sig"
    and "map snd bound
          = args @ map (\<lambda>p. case map_of kwargs (pname p) of Some v \<Rightarrow> v
                               | None \<Rightarrow> the (pdefault p)) (drop (length args) sig)"
    and "\<forall>p \<in> set (drop (length args) sig).
            map_of kwargs (pname p) = None \<longrightarrow> pdefault p \<noteq> None"
    by blast+
next
  assume h: "bind sig args kwargs = Inr bound
       \<and> (\<exists>(p, t) \<in> set E. \<exists>v. map_of bound p = Some v \<and> \<not> isinstance v t)"
  then have "check_types E (map_of bound) \<noteq> None"
    by (auto simp: check_types_None)
  then obtain e where e: "check_types E (map_of bound) = Some e" by auto
  from check_types_Some [OF e] h e
  show "\<exists>p t v. (p, t) \<in> set E \<and> map_of bound p = Some v \<and> \<not> isinstance v t
         \<and> call (validate_types E sig func) args kwargs w = (Inl (type_error p t v), w)"
    by (auto simp: call_validate_types validate_types_wrapper_def)
next
  assume h: "bind sig args kwargs = Inr bound
       \<and> (\<forall>(p, t) \<in> set E. \<forall>v. map_of bound p = Some v \<longrightarrow> isinstance v t)"
  then have "check_types E (map_of bound) = None"
    by (simp add: check_types_None)
  with h show "call (validate_types E sig func) args kwargs w = invoke func args kwargs w"
    by (simp add: call_validate_types validate_types_wrapper_def)
next
  show "call create_user [] (john (VInt 30)) (fresh s () c)
       = (Inr (VDict (john (VInt 30))), emit Invoked (fresh s () c))"
    by (simp add: create_user_def call_validate_types validate_types_wrapper_def bind_john
        check_types_john invoke_create_user_wrapped del: check_types.simps)
next
  show "call create_user [] (john (VStr ''thirty'')) (fresh s () c)
       = (Inl (PyExn ''TypeError'' ''age must be int, got str''), fresh s () c)"
    by (simp add: create_user_def call_validate_types validate_types_wrapper_def bind_john
        check_types_john del: check_types.simps)
next
  show "bind retry_sig [] [(''delay'', VInt 2)]
       = Inr [(''max_attempts'', VInt 3), (''delay'', VInt 2)]"
    by (rule bind_retry_sig(1))
next
  show "bind retry_sig [VInt 5] [] = Inr [(''max_attempts'', VInt 5), (''delay'', VInt 1)]"
    by (rule bind_retry_sig(2))
next
  show "call (validate_types [(''max_attempts'', TInt), (''delay'', TStr)] retry_sig func)
         [VInt 5] [] w
       = (Inl (PyExn ''TypeError'' ''delay must be str, got int''), w)"
    by (simp add: call_validate_types validate_types_wrapper_def bind_retry_sig(2)
        isinstance_def type_error_def)
next
  show "call (validate_types [(''max_attempts'', TInt), (''delay'', TInt)] retry_sig func)
         [VInt 5] [] w
       = invoke func [VInt 5] [] w"
    by (simp add: call_validate_types validate_types_wrapper_def bind_retry_sig(2)
        isinstance_def)
qed

text \<open>
  The theorem at \<open>create_user\<close>, with two positional arguments and one keyword argument,
  and at the signature of \<open>retry\<close>, where the default of \<open>delay\<close> is bound.
\<close>

theorem validate_types_checks_witness:
  "bind create_user_sig [VStr ''John'', VInt 30] [(''email'', VStr ''x@y.com'')]
     = Inr (john (VInt 30))
   \<and> map fst (john (VInt 30)) = map pname create_user_sig
   \<and> isl (fst (call create_user [] (john (VStr ''thirty'')) (fresh () () ticking)))
   \<and> snd (call create_user [] (john (VStr ''thirty'')) (fresh () () ticking))
       = fresh () () ticking
   \<and> call create_user [VStr ''John'', VInt 30] [(''email'', VStr ''x@y.com'')]
        (fresh () () ticking)
       = (Inr (VDict (john (VInt 30))), emit Invoked (fresh () () ticking))
   \<and> bind retry_sig [VInt 5] [] = Inr [(''max_attempts'', VInt 5), (''delay'', VInt 1)]"
proof -
  let ?E = "[(''name'', TStr), (''age'', TInt), (''email'', TStr)]"
  let ?w = "fresh () () ticking :: (unit, unit, pyval, pyval) world"
  let ?pos = "[VStr ''John'', VInt 30]"
  let ?kw = "[(''email'', VStr ''x@y.com'')]"
  have b: "bind create_user_sig ?pos ?kw = Inr (john (VInt 30))"
    by (simp add: bind_def create_user_sig_def required_def john_def)
  have bad: "bind create_user_sig [] (john (VStr ''thirty'')) = Inr (john (VStr ''thirty''))
       \<and> (\<exists>(p, t) \<in> set ?E. \<exists>v. map_of (john (VStr ''thirty'')) p = Some v
             \<and> \<not> isinstance v t)"
    by (simp add: bind_john) (simp add: john_def isinstance_def)
  have good: "bind create_user_sig ?pos ?kw = Inr (john (VInt 30))
       \<and> (\<forall>(p, t) \<in> set ?E. \<forall>v. map_of (john (VInt 30)) p = Some v \<longrightarrow> isinstance v t)"
    by (simp add: b) (simp add: john_def isinstance_def)
  have dflt: "length [VInt 5] \<le> length retry_sig
      \<and> (\<forall>p \<in> set (take (length [VInt 5]) retry_sig). pname p \<notin> fst ` set [])
      \<and> (\<forall>p \<in> set (drop (length [VInt 5]) retry_sig).
            map_of [] (pname p) = None \<longrightarrow> pdefault p \<noteq> None)
      \<and> fst ` set [] \<subseteq> pname ` set (drop (length [VInt 5]) retry_sig)"
    by (simp add: retry_sig_def optional_def)
  note t = validate_types_checks [of _ create_user_sig _ _ ?E create_user_wrapped ?w]
  have 0: "bind retry_sig [VInt 5] [] = Inr [(''max_attempts'', VInt 5), (''delay'', VInt 1)]"
    using validate_types_checks [THEN conjunct1, THEN mp, OF dflt]
    by (simp add: retry_sig_def optional_def)
  have 1: "map fst (john (VInt 30)) = map pname create_user_sig"
    using t [of ?pos ?kw "john (VInt 30)", THEN conjunct2, THEN conjunct1, THEN mp, OF b]
    by simp
  have 2: "isl (fst (call create_user [] (john (VStr ''thirty'')) ?w))
      \<and> snd (call create_user [] (john (VStr ''thirty'')) ?w) = ?w"
    using t [of "[]" "john (VStr ''thirty'')" "john (VStr ''thirty'')",
        THEN conjunct2, THEN conjunct2, THEN conjunct1, THEN mp, OF bad]
    by (auto simp: create_user_def)
  have 3: "call create_user ?pos ?kw ?w = invoke create_user_wrapped ?pos ?kw ?w"
    using t [of ?pos ?kw "john (VInt 30)",
        THEN conjunct2, THEN conjunct2, THEN conjunct2, THEN conjunct1, THEN mp, OF good]
    by (simp add: create_user_def)
  have 4: "invoke create_user_wrapped ?pos ?kw ?w
      = (Inr (VDict (john (VInt 30))), emit Invoked ?w)"
    by (simp add: invoke_def create_user_wrapped_def py_def_def b)
       (simp add: john_def fresh_def emit_def)
  from b 0 1 2 3 4 show ?thesis by simp
qed

subsection \<open>timer, log_calls and validate_types stacked\<close>

lemma call_timer: "call (timer func) = timer_wrapper func"
  by (simp add: timer_def wraps_def)

lemma call_log_calls: "call (log_calls level func) = log_calls_wrapper level func"
  by (simp add: log_calls_def wraps_def)

lemma name_validate_types: "name (validate_types E sig func) = name func"
  by (simp add: validate_types_def wraps_def)

lemma name_log_calls: "name (log_calls level func) = name func"
  by (simp add: log_calls_def wraps_def)

lemma timer_raises:
  assumes "fst (call func args kwargs (inner w)) = Inl e"
  shows "fst (call (timer func) args kwargs w) = Inl e"
    and "inner (snd (call (timer func) args kwargs w)) = snd (call func args kwargs (inner w))"
    and "trace (snd (call (timer func) args kwargs w)) = trace w @ [Invoked]"
    and "reads (snd (call (timer func) args kwargs w)) = Suc (reads w)"
  using assms
  by (auto simp: call_timer timer_wrapper_def time_time_def invoke_def emit_def
      split: prod.splits)

lemma timer_returns:
  assumes "fst (call func args kwargs (inner w)) = Inr r"
  shows "fst (call (timer func) args kwargs w) = Inr r"
    and "printed (trace (snd (call (timer func) args kwargs w)))
       = printed (trace w) @ [Took (name func) (clock w (Suc (reads w)) - clock w (reads w))]"
    and "inner (snd (call (timer func) args kwargs w)) = snd (call func args kwargs (inner w))"
  using assms
  by (auto simp: call_timer timer_wrapper_def time_time_def invoke_def emit_def py_print_def
      printed_append split: prod.splits)

lemma validate_mismatch:
  assumes "bind sig args kwargs = Inr bound" and "check_types E (map_of bound) = Some e"
  shows "call (validate_types E sig func) args kwargs w = (Inl e, w)"
  using assms by (simp add: call_validate_types validate_types_wrapper_def)

lemma validate_match:
  assumes "bind sig args kwargs = Inr bound" and "check_types E (map_of bound) = None"
  shows "call (validate_types E sig func) args kwargs w = invoke func args kwargs w"
  using assms by (simp add: call_validate_types validate_types_wrapper_def)

lemma log_calls_returns:
  assumes "fst (call func args kwargs (inner w)) = Inr r"
  shows "fst (call (log_calls level func) args kwargs w) = Inr r"
  using assms
  by (auto simp: call_log_calls log_calls_wrapper_def invoke_def logger_log_def emit_def
      split: prod.splits)

lemma log_calls_raises:
  assumes "call func args kwargs (inner w) = (Inl e, s)"
  shows "fst (call (log_calls level func) args kwargs w) = Inl e"
    and "inner (snd (call (log_calls level func) args kwargs w)) = s"
    and "logged (trace (snd (call (log_calls level func) args kwargs w)))
       = logged (trace w)
         @ (if 20 \<le> level then [(level, Log_calling (name func) args kwargs)] else [])
         @ [(40, Log_raised (name func) (exn_class e) e)]"
  using assms
  by (simp_all add: call_log_calls log_calls_wrapper_def invoke_def emit_def logger_log_def
      logger_error_def logged_append)

text \<open>
  C2, as the code has it. With \<open>timer\<close> outside \<open>log_calls\<close> outside
  \<open>validate_types\<close>, when the arguments bind and a configured parameter has a value of
  the wrong type, the call fails with the \<open>TypeError\<close> of the validation, unchanged;
  the function itself is not called (the world of the validation is as before); the
  logging wrapper logs the call and then, at \<open>ERROR\<close>, the error and its class; the
  timer has read the clock once, at the start, and prints nothing. In general the timer
  passes on the error of the call it wraps unchanged and prints no duration for it; it
  prints the duration, the second reading of the clock minus the first, when the call
  returns.
\<close>

theorem timer_log_calls_validate_types:
  "(bind sig args kwargs = Inr bound \<and> check_types E (map_of bound) = Some e \<longrightarrow>
      (\<exists>p t v. (p, t) \<in> set E \<and> map_of bound p = Some v \<and> \<not> isinstance v t
          \<and> e = type_error p t v)
      \<and> fst (call (timer (log_calls level (validate_types E sig func))) args kwargs w) = Inl e
      \<and> inner (inner (snd (call (timer (log_calls level (validate_types E sig func)))
            args kwargs w))) = inner (inner w)
      \<and> logged (trace (inner (snd (call (timer (log_calls level (validate_types E sig func)))
            args kwargs w))))
          = logged (trace (inner w))
            @ (if 20 \<le> level then [(level, Log_calling (name func) args kwargs)] else [])
            @ [(40, Log_raised (name func) (exn_class e) e)]
      \<and> printed (trace (snd (call (timer (log_calls level (validate_types E sig func)))
            args kwargs w))) = printed (trace w)
      \<and> reads (snd (call (timer (log_calls level (validate_types E sig func)))
            args kwargs w)) = Suc (reads w))
   \<and> (fst (call g a k (inner u)) = Inl x \<longrightarrow>
        fst (call (timer g) a k u) = Inl x
        \<and> printed (trace (snd (call (timer g) a k u))) = printed (trace u))
   \<and> (fst (call g a k (inner u)) = Inr y \<longrightarrow>
        fst (call (timer g) a k u) = Inr y
        \<and> printed (trace (snd (call (timer g) a k u)))
            = printed (trace u) @ [Took (name g) (clock u (Suc (reads u)) - clock u (reads u))])"
proof (intro conjI impI)
  assume h: "bind sig args kwargs = Inr bound \<and> check_types E (map_of bound) = Some e"
  let ?V = "validate_types E sig func"
  let ?L = "log_calls level ?V"
  from h have v: "call ?V args kwargs (inner (inner w)) = (Inl e, inner (inner w))"
    by (simp add: validate_mismatch)
  note l = log_calls_raises [of ?V args kwargs "inner w", OF v, of level]
  note t = timer_raises [OF l(1)]
  from h check_types_Some
  show "\<exists>p t v. (p, t) \<in> set E \<and> map_of bound p = Some v \<and> \<not> isinstance v t
          \<and> e = type_error p t v" by blast
  show "fst (call (timer ?L) args kwargs w) = Inl e" by (rule t(1))
  show "inner (inner (snd (call (timer ?L) args kwargs w))) = inner (inner w)"
    by (simp add: t(2) l(2))
  show "logged (trace (inner (snd (call (timer ?L) args kwargs w))))
          = logged (trace (inner w))
            @ (if 20 \<le> level then [(level, Log_calling (name func) args kwargs)] else [])
            @ [(40, Log_raised (name func) (exn_class e) e)]"
    using l(3) by (simp add: t(2) name_validate_types)
  show "printed (trace (snd (call (timer ?L) args kwargs w))) = printed (trace w)"
    by (simp add: t(3) printed_append)
  show "reads (snd (call (timer ?L) args kwargs w)) = Suc (reads w)"
    by (rule t(4))
next
  assume h: "fst (call g a k (inner u)) = Inl x"
  show "fst (call (timer g) a k u) = Inl x"
    and "printed (trace (snd (call (timer g) a k u))) = printed (trace u)"
    by (simp_all add: timer_raises [OF h] printed_append)
next
  assume h: "fst (call g a k (inner u)) = Inr y"
  from timer_returns [OF h]
  show "fst (call (timer g) a k u) = Inr y"
    and "printed (trace (snd (call (timer g) a k u)))
            = printed (trace u) @ [Took (name g) (clock u (Suc (reads u)) - clock u (reads u))]"
    by simp_all
qed

lemma bind_multiply:
  "bind multiply_sig [x, y] [] = Inr [(''x'', x), (''y'', y)]"
  by (simp add: bind_def multiply_sig_def required_def)

lemma check_types_multiply:
  "check_types [(''x'', TInt), (''y'', TInt)] (map_of [(''x'', VStr ''4''), (''y'', VInt 5)])
     = Some (PyExn ''TypeError'' ''x must be int, got str'')"
  "check_types [(''x'', TInt), (''y'', TInt)] (map_of [(''x'', VInt 4), (''y'', VInt 5)]) = None"
  by (simp_all add: isinstance_def type_error_def)

lemma call_multiply_wrapped: "call multiply_wrapped [x, y] [] s = (py_mul x y, s)"
  by (simp add: multiply_wrapped_def py_def_def bind_multiply)

text \<open>
  C2 as stated fails: \<open>multiply("4", 5)\<close> fails in the validation, and the timer has
  printed nothing, no duration either.
\<close>

theorem timer_silent_counterexample:
  "fst (call multiply [VStr ''4'', VInt 5] [] multiply_world)
     = Inl (PyExn ''TypeError'' ''x must be int, got str'')
   \<and> printed (trace (snd (call multiply [VStr ''4'', VInt 5] [] multiply_world))) = []"
proof -
  have v: "call (validate_types [(''x'', TInt), (''y'', TInt)] multiply_sig multiply_wrapped)
      [VStr ''4'', VInt 5] [] (inner (inner multiply_world))
     = (Inl (PyExn ''TypeError'' ''x must be int, got str''), inner (inner multiply_world))"
    by (rule validate_mismatch [OF bind_multiply check_types_multiply(1)])
  note l = log_calls_raises [OF v, of 20]
  note t = timer_raises [OF l(1)]
  have "trace multiply_world = []" by (simp add: multiply_world_def fresh_def)
  with t(1,3) show ?thesis
    by (simp add: multiply_def printed_append)
qed

theorem timer_log_calls_validate_types_witness:
  "fst (call multiply [VStr ''4'', VInt 5] [] multiply_world)
     = Inl (PyExn ''TypeError'' ''x must be int, got str'')
   \<and> inner (inner (snd (call multiply [VStr ''4'', VInt 5] [] multiply_world)))
       = fresh () () ticking
   \<and> logged (trace (inner (snd (call multiply [VStr ''4'', VInt 5] [] multiply_world))))
       = [(20, Log_calling ''multiply'' [VStr ''4'', VInt 5] []),
          (40, Log_raised ''multiply'' ''TypeError''
                 (PyExn ''TypeError'' ''x must be int, got str''))]
   \<and> printed (trace (snd (call multiply [VStr ''4'', VInt 5] [] multiply_world))) = []
   \<and> reads (snd (call multiply [VStr ''4'', VInt 5] [] multiply_world)) = 1
   \<and> fst (call multiply [VInt 4, VInt 5] [] multiply_world) = Inr (VInt 20)
   \<and> printed (trace (snd (call multiply [VInt 4, VInt 5] [] multiply_world)))
       = [Took ''multiply'' 1]"
proof -
  let ?E = "[(''x'', TInt), (''y'', TInt)]"
  let ?L = "log_calls 20 (validate_types ?E multiply_sig multiply_wrapped)"
  let ?bad = "[VStr ''4'', VInt 5]"
  let ?good = "[VInt 4, VInt 5]"
  have h: "bind multiply_sig ?bad [] = Inr [(''x'', VStr ''4''), (''y'', VInt 5)]
      \<and> check_types ?E (map_of [(''x'', VStr ''4''), (''y'', VInt 5)])
          = Some (PyExn ''TypeError'' ''x must be int, got str'')"
    by (intro conjI bind_multiply check_types_multiply)
  have v: "fst (call (validate_types ?E multiply_sig multiply_wrapped) ?good []
      (inner (inner multiply_world))) = Inr (VInt 20)"
    by (simp add: validate_match [OF bind_multiply check_types_multiply(2)] invoke_simps
        call_multiply_wrapped py_mul_def)
  have g: "fst (call ?L ?good [] (inner multiply_world)) = Inr (VInt 20)"
    by (rule log_calls_returns [OF v])
  note t = timer_log_calls_validate_types [of multiply_sig _ "[]" _ ?E _ 20 multiply_wrapped
      multiply_world ?L ?good "[]" multiply_world]
  from t [of ?bad, THEN conjunct1, THEN mp, OF h]
    t [THEN conjunct2, THEN conjunct2, THEN mp, OF g]
  show ?thesis
    by (simp add: multiply_def name_log_calls name_validate_types)
       (simp add: multiply_world_def fresh_def multiply_wrapped_def ticking_def)
qed

subsection \<open>memoize\<close>

lemma call_memoize: "call (memoize rn r func) = memoize_wrapper rn r func"
  by (simp add: memoize_def wraps_def)

lemma name_memoize: "name (memoize rn r func) = name func"
  by (simp add: memoize_def wraps_def)

lemma map_of_store: "map_of (store key result cache) = (map_of cache)(key \<mapsto> result)"
  by (induction key result cache rule: store.induct) (auto simp: fun_eq_iff)

lemma store_absent: "map_of cache key = None \<Longrightarrow> store key result cache = cache @ [(key, result)]"
  by (induction key result cache rule: store.induct) (auto split: if_splits)

lemma memoize_hit:
  assumes "map_of (priv w) (memo_key rn r args kwargs) = Some v"
  shows "call (memoize rn r func) args kwargs w
       = (Inr v, py_print (Cache_hit (name func) args) w)"
  using assms by (simp add: call_memoize memoize_wrapper_def Let_def)

lemma memoize_miss_returns:
  assumes "map_of (priv w) (memo_key rn r args kwargs) = None"
    and "call func args kwargs (emit Invoked (py_print (Computing (name func) args) w))
       = (Inr v, w1)"
  shows "call (memoize rn r func) args kwargs w
       = (Inr v, w1\<lparr>priv := store (memo_key rn r args kwargs) v (priv w1)\<rparr>)"
  using assms by (simp add: call_memoize memoize_wrapper_def Let_def)

lemma memoize_miss_raises:
  assumes "map_of (priv w) (memo_key rn r args kwargs) = None"
    and "call func args kwargs (emit Invoked (py_print (Computing (name func) args) w))
       = (Inl e, w1)"
  shows "call (memoize rn r func) args kwargs w = (Inl e, w1)"
  using assms by (simp add: call_memoize memoize_wrapper_def Let_def)

lemma call_on_inner:
  "call (on_inner func) args kwargs w
     = (fst (call func args kwargs (inner w)), w\<lparr>inner := snd (call func args kwargs (inner w))\<rparr>)"
  by (simp add: on_inner_def split: prod.split)

lemma name_on_inner: "name (on_inner func) = name func"
  by (simp add: on_inner_def)

text \<open>A miss on a function that does not call the wrapper.\<close>

lemma memoize_miss:
  assumes "map_of (priv w) (memo_key rn r args kwargs) = None"
  shows "fst (call (memoize rn r (on_inner func)) args kwargs w)
       = fst (call func args kwargs (inner w))"
    and "inner (snd (call (memoize rn r (on_inner func)) args kwargs w))
       = snd (call func args kwargs (inner w))"
    and "trace (snd (call (memoize rn r (on_inner func)) args kwargs w))
       = trace w @ [Printed (Computing (name func) args), Invoked]"
    and "priv (snd (call (memoize rn r (on_inner func)) args kwargs w))
       = (case fst (call func args kwargs (inner w)) of
            Inl e \<Rightarrow> priv w
          | Inr v \<Rightarrow> priv w @ [(memo_key rn r args kwargs, v)])"
  using assms
  by (auto simp: call_memoize memoize_wrapper_def Let_def call_on_inner name_on_inner
      emit_def py_print_def store_absent split: sum.splits)

lemma sort_key_permuted:
  assumes "distinct (map fst kwargs)" and "mset kwargs' = mset kwargs"
  shows "sort_key fst kwargs' = sort_key fst (kwargs :: (string \<times> 'v) list)"
proof (rule sort_key_inj_key_eq)
  show "mset kwargs' = mset (sort_key fst kwargs)" using assms(2) by simp
  from assms have "set kwargs' = set kwargs" by (metis set_mset_mset)
  with assms(1) show "inj_on fst (set kwargs')" by (simp add: distinct_map)
  show "sorted (map fst (sort_key fst kwargs))" by simp
qed

lemma memo_key_permuted:
  assumes "distinct (map fst kwargs)" and "mset kwargs' = mset kwargs"
  shows "memo_key rn r args kwargs' = memo_key rn r args kwargs"
  by (simp add: memo_key_def sort_key_permuted [OF assms])

lemma invocations_append:
  "trace w' = trace w @ es \<Longrightarrow> invocations w' = invocations w + count_list es Invoked"
  by (simp add: invocations_def)

lemma invocations_py_print: "invocations (py_print t w) = invocations w"
  by (simp add: invocations_def py_print_simps)

text \<open>Two calls in a row whose keys are not in the cache, the second not served by the
  first, on a function that does not call the wrapper: each calls it.\<close>

lemma memoize_two_misses:
  assumes k1: "map_of (priv w) (memo_key rn r args1 kw1) = None"
    and k2: "map_of (priv (snd (call (memoize rn r (on_inner func)) args1 kw1 w)))
               (memo_key rn r args2 kw2) = None"
  shows "fst (call (memoize rn r (on_inner func)) args2 kw2
           (snd (call (memoize rn r (on_inner func)) args1 kw1 w)))
       = fst (call func args2 kw2 (snd (call func args1 kw1 (inner w))))"
    and "invocations (snd (call (memoize rn r (on_inner func)) args2 kw2
           (snd (call (memoize rn r (on_inner func)) args1 kw1 w)))) = invocations w + 2"
proof -
  let ?M = "memoize rn r (on_inner func)"
  let ?w1 = "snd (call ?M args1 kw1 w)"
  note a = memoize_miss [OF k1, of func] and b = memoize_miss [OF k2, of func]
  show "fst (call ?M args2 kw2 ?w1)
       = fst (call func args2 kw2 (snd (call func args1 kw1 (inner w))))"
    by (simp add: b(1) a(2))
  have "trace (snd (call ?M args2 kw2 ?w1))
      = trace w @ [Printed (Computing (name func) args1), Invoked,
                   Printed (Computing (name func) args2), Invoked]"
    by (simp add: b(3) a(3))
  from invocations_append [OF this]
  show "invocations (snd (call ?M args2 kw2 ?w1)) = invocations w + 2"
    by simp
qed


text \<open>
  C3, as the code has it. The key of a call is \<open>memo_key\<close> of its arguments. For every
  callable, also one that calls the wrapper again as \<open>fibonacci\<close> does: a call whose key
  is in the cache returns the stored result and does not call the callable; a call whose
  key is not in the cache calls the callable, and when that returns, its result is stored
  under the key, so that a second call with the same arguments, the keyword arguments in
  any order, returns the same result and calls the callable no more; when the callable
  raises, the wrapper raises the same error and stores nothing. For a callable that does
  not call the wrapper (\<open>on_inner\<close>) and a key that is not in the cache: two calls with
  the same arguments, the first one returning, call the callable exactly once; when the
  first one raises, the cache is left as it was and the two calls call the callable twice;
  two calls whose keys differ, neither in the cache, call it twice, each call with its own
  arguments. \<open>cache_clear\<close> leaves no entry. The key does not depend on the order of the
  keyword arguments.
\<close>

theorem memoize_caches:
  "(map_of (priv w) (memo_key rn r args kwargs) = Some v \<longrightarrow>
      call (memoize rn r func) args kwargs w
        = (Inr v, py_print (Cache_hit (name func) args) w)
      \<and> invocations (snd (call (memoize rn r func) args kwargs w)) = invocations w)
   \<and> (map_of (priv w) (memo_key rn r args kwargs) = None
      \<and> call func args kwargs (emit Invoked (py_print (Computing (name func) args) w))
          = (Inr v, w1)
      \<and> distinct (map fst kwargs) \<and> mset kwargs' = mset kwargs \<longrightarrow>
      call (memoize rn r func) args kwargs w
        = (Inr v, w1\<lparr>priv := store (memo_key rn r args kwargs) v (priv w1)\<rparr>)
      \<and> fst (call (memoize rn r func) args kwargs'
             (snd (call (memoize rn r func) args kwargs w))) = Inr v
      \<and> invocations (snd (call (memoize rn r func) args kwargs'
             (snd (call (memoize rn r func) args kwargs w))))
          = invocations (snd (call (memoize rn r func) args kwargs w)))
   \<and> (map_of (priv w) (memo_key rn r args kwargs) = None
      \<and> call func args kwargs (emit Invoked (py_print (Computing (name func) args) w))
          = (Inl e, w1) \<longrightarrow>
      call (memoize rn r func) args kwargs w = (Inl e, w1))
   \<and> (map_of (priv w) (memo_key rn r args kwargs) = None
      \<and> fst (call f args kwargs (inner w)) = Inr v
      \<and> distinct (map fst kwargs) \<and> mset kwargs' = mset kwargs \<longrightarrow>
      fst (call (memoize rn r (on_inner f)) args kwargs w) = Inr v
      \<and> fst (call (memoize rn r (on_inner f)) args kwargs'
             (snd (call (memoize rn r (on_inner f)) args kwargs w))) = Inr v
      \<and> inner (snd (call (memoize rn r (on_inner f)) args kwargs'
             (snd (call (memoize rn r (on_inner f)) args kwargs w))))
          = snd (call f args kwargs (inner w))
      \<and> invocations (snd (call (memoize rn r (on_inner f)) args kwargs'
             (snd (call (memoize rn r (on_inner f)) args kwargs w)))) = Suc (invocations w))
   \<and> (map_of (priv w) (memo_key rn r args kwargs) = None
      \<and> fst (call f args kwargs (inner w)) = Inl e \<longrightarrow>
      fst (call (memoize rn r (on_inner f)) args kwargs w) = Inl e
      \<and> priv (snd (call (memoize rn r (on_inner f)) args kwargs w)) = priv w
      \<and> invocations (snd (call (memoize rn r (on_inner f)) args kwargs
             (snd (call (memoize rn r (on_inner f)) args kwargs w)))) = invocations w + 2)
   \<and> (memo_key rn r args1 kw1 \<noteq> memo_key rn r args2 kw2
      \<and> map_of (priv w) (memo_key rn r args1 kw1) = None
      \<and> map_of (priv w) (memo_key rn r args2 kw2) = None \<longrightarrow>
      fst (call (memoize rn r (on_inner f)) args1 kw1 w) = fst (call f args1 kw1 (inner w))
      \<and> fst (call (memoize rn r (on_inner f)) args2 kw2
             (snd (call (memoize rn r (on_inner f)) args1 kw1 w)))
          = fst (call f args2 kw2 (snd (call f args1 kw1 (inner w))))
      \<and> invocations (snd (call (memoize rn r (on_inner f)) args2 kw2
             (snd (call (memoize rn r (on_inner f)) args1 kw1 w)))) = invocations w + 2)
   \<and> fst (cache_info (cache_clear w)) = 0
   \<and> (distinct (map fst kwargs) \<and> mset kwargs' = mset kwargs \<longrightarrow>
      memo_key rn r args kwargs' = memo_key rn r args kwargs)"
proof (intro conjI impI)
  assume h: "map_of (priv w) (memo_key rn r args kwargs) = Some v"
  note a = memoize_hit [OF h, of func]
  show "call (memoize rn r func) args kwargs w
        = (Inr v, py_print (Cache_hit (name func) args) w)" by (rule a)
  show "invocations (snd (call (memoize rn r func) args kwargs w)) = invocations w"
    by (simp add: a invocations_py_print)
next
  assume h: "map_of (priv w) (memo_key rn r args kwargs) = None
      \<and> call func args kwargs (emit Invoked (py_print (Computing (name func) args) w))
          = (Inr v, w1)
      \<and> distinct (map fst kwargs) \<and> mset kwargs' = mset kwargs"
  let ?M = "memoize rn r func"
  from h have a: "call ?M args kwargs w
        = (Inr v, w1\<lparr>priv := store (memo_key rn r args kwargs) v (priv w1)\<rparr>)"
    by (simp add: memoize_miss_returns)
  from h have same: "memo_key rn r args kwargs' = memo_key rn r args kwargs"
    by (simp add: memo_key_permuted)
  have hit: "map_of (priv (snd (call ?M args kwargs w))) (memo_key rn r args kwargs') = Some v"
    by (simp add: a same map_of_store)
  note b = memoize_hit [OF hit, of func]
  show "call ?M args kwargs w
        = (Inr v, w1\<lparr>priv := store (memo_key rn r args kwargs) v (priv w1)\<rparr>)" by (rule a)
  show "fst (call ?M args kwargs' (snd (call ?M args kwargs w))) = Inr v"
    by (simp add: b)
  show "invocations (snd (call ?M args kwargs' (snd (call ?M args kwargs w))))
          = invocations (snd (call ?M args kwargs w))"
    by (simp add: b invocations_py_print)
next
  assume "map_of (priv w) (memo_key rn r args kwargs) = None
      \<and> call func args kwargs (emit Invoked (py_print (Computing (name func) args) w))
          = (Inl e, w1)"
  then show "call (memoize rn r func) args kwargs w = (Inl e, w1)"
    by (simp add: memoize_miss_raises)
next
  assume h: "map_of (priv w) (memo_key rn r args kwargs) = None
      \<and> fst (call f args kwargs (inner w)) = Inr v
      \<and> distinct (map fst kwargs) \<and> mset kwargs' = mset kwargs"
  let ?M = "memoize rn r (on_inner f)"
  let ?w1 = "snd (call ?M args kwargs w)"
  from h have k: "map_of (priv w) (memo_key rn r args kwargs) = None" by simp
  note a = memoize_miss [OF k, of f]
  from h have same: "memo_key rn r args kwargs' = memo_key rn r args kwargs"
    by (simp add: memo_key_permuted)
  have hit: "map_of (priv ?w1) (memo_key rn r args kwargs') = Some v"
    using h by (simp add: a(4) same map_add_def)
  note b = memoize_hit [OF hit, of "on_inner f"]
  show "fst (call ?M args kwargs w) = Inr v" using h by (simp add: a(1))
  show "fst (call ?M args kwargs' ?w1) = Inr v" by (simp add: b)
  show "inner (snd (call ?M args kwargs' ?w1)) = snd (call f args kwargs (inner w))"
    by (simp add: b py_print_simps a(2))
  have "trace (snd (call ?M args kwargs' ?w1))
      = trace w @ [Printed (Computing (name f) args), Invoked,
                   Printed (Cache_hit (name f) args)]"
    by (simp add: b py_print_simps a(3) name_on_inner)
  from invocations_append [OF this]
  show "invocations (snd (call ?M args kwargs' ?w1)) = Suc (invocations w)" by simp
next
  assume h: "map_of (priv w) (memo_key rn r args kwargs) = None
      \<and> fst (call f args kwargs (inner w)) = Inl e"
  let ?M = "memoize rn r (on_inner f)"
  from h have k: "map_of (priv w) (memo_key rn r args kwargs) = None" by simp
  note a = memoize_miss [OF k, of f]
  show "fst (call ?M args kwargs w) = Inl e" using h by (simp add: a(1))
  show p: "priv (snd (call ?M args kwargs w)) = priv w" using h by (simp add: a(4))
  have k2: "map_of (priv (snd (call ?M args kwargs w))) (memo_key rn r args kwargs) = None"
    by (simp add: p k)
  show "invocations (snd (call ?M args kwargs (snd (call ?M args kwargs w))))
      = invocations w + 2"
    by (rule memoize_two_misses(2) [OF k k2])
next
  assume h: "memo_key rn r args1 kw1 \<noteq> memo_key rn r args2 kw2
      \<and> map_of (priv w) (memo_key rn r args1 kw1) = None
      \<and> map_of (priv w) (memo_key rn r args2 kw2) = None"
  let ?M = "memoize rn r (on_inner f)"
  from h have k1: "map_of (priv w) (memo_key rn r args1 kw1) = None" by simp
  note a = memoize_miss [OF k1, of f]
  have k2: "map_of (priv (snd (call ?M args1 kw1 w))) (memo_key rn r args2 kw2) = None"
    using h by (auto simp: a(4) map_add_def split: sum.split)
  show "fst (call ?M args1 kw1 w) = fst (call f args1 kw1 (inner w))" by (rule a(1))
  show "fst (call ?M args2 kw2 (snd (call ?M args1 kw1 w)))
          = fst (call f args2 kw2 (snd (call f args1 kw1 (inner w))))"
    by (rule memoize_two_misses(1) [OF k1 k2])
  show "invocations (snd (call ?M args2 kw2 (snd (call ?M args1 kw1 w)))) = invocations w + 2"
    by (rule memoize_two_misses(2) [OF k1 k2])
next
  show "fst (cache_info (cache_clear w)) = 0"
    by (simp add: cache_info_def cache_clear_def)
next
  assume "distinct (map fst kwargs) \<and> mset kwargs' = mset kwargs"
  then show "memo_key rn r args kwargs' = memo_key rn r args kwargs"
    by (simp add: memo_key_permuted)
qed

lemma decimal_digit: "n < 10 \<Longrightarrow> decimal n = [''0123456789'' ! n]"
  by (simp add: decimal.simps)

lemma repr_int_small [simp]:
  "repr_int 0 = ''0''" "repr_int 1 = ''1''"
  "repr_int 2 = ''2''" "repr_int 3 = ''3''" "repr_int 4 = ''4''" "repr_int 5 = ''5''"
  by (simp_all add: repr_int_def decimal_digit)


lemma call_add_numbers_wrapped_kw:
  "call add_numbers_wrapped [] [(''a'', a), (''b'', b)] s = (Inr (a + b), s)"
  by (simp add: add_numbers_wrapped_def py_def_def bind_def required_def)

lemma call_greet: "call (greet to_str) [n] [] s = (Inr (''Hello, '' @ to_str n @ ''!''), s)"
  by (simp add: greet_def py_def_def bind_def required_def)

lemma only_failures_shift: "(\<lambda>n. only_failures (Suc n)) = only_failures"
  by (simp add: only_failures_def fun_eq_iff)

lemma call_unreliable_only_failures:
  "call unreliable_function [] [] only_failures
     = (Inl (PyExn ''Exception'' ''Random failure!''), only_failures)"
  by (simp add: unreliable_call only_failures_shift) (simp add: only_failures_def)

text \<open>\<open>fibonacci(2)\<close> on an empty cache: the function, and the wrapper.\<close>

lemma recursion_depth_Suc: "recursion_depth = Suc (Suc 497)"
  by (simp add: recursion_depth_def)

lemma name_fibonacci_wrapped: "name (fibonacci_wrapped self) = ''fibonacci''"
  by (simp add: fibonacci_wrapped_def)

lemma fibonacci_wrapped_2:
  "call (fibonacci_wrapped (call (fibonacci (Suc limit)))) [2] []
       (emit Invoked (py_print (Computing ''fibonacci'' [2]) fibonacci_world))
     = (Inr 1,
        fibonacci_world
          \<lparr>priv := [(''(1,)[]'', 1), (''(0,)[]'', 0)],
           trace := [Printed (Computing ''fibonacci'' [2]), Invoked,
                     Printed (Computing ''fibonacci'' [1]), Invoked,
                     Printed (Computing ''fibonacci'' [0]), Invoked]\<rparr>)"
  by (simp add: call_memoize memoize_wrapper_def Let_def memo_key_def str_tuple_def
      str_list_def py_def_def bind_def required_def fibonacci_world_def fresh_def emit_def
      py_print_def fibonacci_wrapped_def)

lemma fibonacci_2:
  "call (fibonacci (Suc (Suc limit))) [2] [] fibonacci_world
     = (Inr 1,
        fibonacci_world
          \<lparr>priv := [(''(1,)[]'', 1), (''(0,)[]'', 0), (''(2,)[]'', 1)],
           trace := [Printed (Computing ''fibonacci'' [2]), Invoked,
                     Printed (Computing ''fibonacci'' [1]), Invoked,
                     Printed (Computing ''fibonacci'' [0]), Invoked]\<rparr>)"
  by (simp add: call_memoize memoize_wrapper_def Let_def memo_key_def str_tuple_def
      str_list_def py_def_def bind_def required_def fibonacci_world_def fresh_def emit_def
      py_print_def fibonacci_wrapped_def)

lemma fibonacci_2_again:
  "call (fibonacci (Suc (Suc limit))) [2] []
       (snd (call (fibonacci (Suc (Suc limit))) [2] [] fibonacci_world))
     = (Inr 1,
        fibonacci_world
          \<lparr>priv := [(''(1,)[]'', 1), (''(0,)[]'', 0), (''(2,)[]'', 1)],
           trace := [Printed (Computing ''fibonacci'' [2]), Invoked,
                     Printed (Computing ''fibonacci'' [1]), Invoked,
                     Printed (Computing ''fibonacci'' [0]), Invoked,
                     Printed (Cache_hit ''fibonacci'' [2])]\<rparr>)"
  unfolding fibonacci_2 snd_conv
  by (simp add: call_memoize memoize_wrapper_def Let_def memo_key_def str_tuple_def
      str_list_def fibonacci_world_def fresh_def py_print_def emit_def fibonacci_wrapped_def)


lemma fibonacci_recursion_error:
  "call (fibonacci_wrapped (call (fibonacci 0))) [2] [] w
     = (Inl (PyExn ''RecursionError'' ''maximum recursion depth exceeded''), w)"
  by (simp add: py_def_def bind_def required_def fibonacci_wrapped_def)

lemma memo_key_add_numbers_kw:
  "memo_key quoted repr_int [] [(''a'', 2), (''b'', 3)] = ''()[('a', 2), ('b', 3)]''"
  "memo_key quoted repr_int [] [(''a'', 4), (''b'', 5)] = ''()[('a', 4), ('b', 5)]''"
  by (simp_all add: memo_key_def str_tuple_def str_list_def quoted_def)

theorem memoize_caches_witness:
  "call (fibonacci recursion_depth) [1] []
       (snd (call (fibonacci recursion_depth) [2] [] fibonacci_world))
     = (Inr 1, py_print (Cache_hit ''fibonacci'' [1])
                 (snd (call (fibonacci recursion_depth) [2] [] fibonacci_world)))
   \<and> fst (call (fibonacci recursion_depth) [2] [] fibonacci_world) = Inr 1
   \<and> fst (call (fibonacci recursion_depth) [2] []
       (snd (call (fibonacci recursion_depth) [2] [] fibonacci_world))) = Inr 1
   \<and> invocations (snd (call (fibonacci recursion_depth) [2] []
       (snd (call (fibonacci recursion_depth) [2] [] fibonacci_world)))) = 3
   \<and> fst (call (fibonacci 1) [2] [] fibonacci_world)
       = Inl (PyExn ''RecursionError'' ''maximum recursion depth exceeded'')
   \<and> fst (call (memoize quoted repr_int (on_inner add_numbers_wrapped)) []
       [(''a'', 2), (''b'', 3)] add_numbers_world) = Inr 5
   \<and> fst (call (memoize quoted repr_int (on_inner add_numbers_wrapped)) []
       [(''b'', 3), (''a'', 2)]
       (snd (call (memoize quoted repr_int (on_inner add_numbers_wrapped)) []
          [(''a'', 2), (''b'', 3)] add_numbers_world))) = Inr 5
   \<and> invocations (snd (call (memoize quoted repr_int (on_inner add_numbers_wrapped)) []
       [(''b'', 3), (''a'', 2)]
       (snd (call (memoize quoted repr_int (on_inner add_numbers_wrapped)) []
          [(''a'', 2), (''b'', 3)] add_numbers_world)))) = 1
   \<and> fst (call (memoize quoted repr_int (on_inner unreliable_function)) [] []
       unreliable_world) = Inl (PyExn ''Exception'' ''Random failure!'')
   \<and> invocations (snd (call (memoize quoted repr_int (on_inner unreliable_function)) [] []
       (snd (call (memoize quoted repr_int (on_inner unreliable_function)) [] []
          unreliable_world)))) = 2
   \<and> fst (call (memoize quoted repr_int (on_inner add_numbers_wrapped)) []
       [(''a'', 4), (''b'', 5)]
       (snd (call (memoize quoted repr_int (on_inner add_numbers_wrapped)) []
          [(''a'', 2), (''b'', 3)] add_numbers_world))) = Inr 9
   \<and> invocations (snd (call (memoize quoted repr_int (on_inner add_numbers_wrapped)) []
       [(''a'', 4), (''b'', 5)]
       (snd (call (memoize quoted repr_int (on_inner add_numbers_wrapped)) []
          [(''a'', 2), (''b'', 3)] add_numbers_world)))) = 2
   \<and> memo_key quoted repr_int [] [(''b'', 3), (''a'', 2)]
       = memo_key quoted repr_int [] [(''a'', 2), (''b'', 3)]"
proof -
  let ?kw = "[(''a'', 2), (''b'', 3)] :: (string \<times> int) list"
  let ?kw' = "[(''b'', 3), (''a'', 2)] :: (string \<times> int) list"
  let ?kw2 = "[(''a'', 4), (''b'', 5)] :: (string \<times> int) list"
  let ?f = "fibonacci_wrapped (call (fibonacci (Suc 497)))"
  let ?g = "fibonacci_wrapped (call (fibonacci 0))"
  let ?w1 = "fibonacci_world
          \<lparr>priv := [(''(1,)[]'', 1), (''(0,)[]'', 0)],
           trace := [Printed (Computing ''fibonacci'' [2]), Invoked,
                     Printed (Computing ''fibonacci'' [1]), Invoked,
                     Printed (Computing ''fibonacci'' [0]), Invoked]\<rparr>"
  let ?w0 = "emit Invoked (py_print (Computing ''fibonacci'' [2]) fibonacci_world)"
  have F: "fibonacci recursion_depth = memoize quoted repr_int ?f"
    by (simp only: recursion_depth_Suc fibonacci.simps)
  have G: "fibonacci 1 = memoize quoted repr_int ?g"
    by (simp only: One_nat_def fibonacci.simps)
  note f2 = fibonacci_2 [of 497, unfolded fibonacci.simps(2) [of "Suc 497"]]
  have h: "map_of (priv (snd (call (memoize quoted repr_int ?f) [2] [] fibonacci_world)))
      (memo_key quoted repr_int [1] []) = Some 1"
    unfolding f2 snd_conv by (simp add: memo_key_def str_tuple_def str_list_def)
  have m: "map_of (priv fibonacci_world) (memo_key quoted repr_int [2] []) = None
      \<and> call ?f [2] [] (emit Invoked (py_print (Computing (name ?f) [2]) fibonacci_world))
          = (Inr 1, ?w1)
      \<and> distinct (map fst ([] :: (string \<times> int) list))
      \<and> mset ([] :: (string \<times> int) list) = mset []"
  proof (intro conjI)
    show "call ?f [2] [] (emit Invoked (py_print (Computing (name ?f) [2]) fibonacci_world))
          = (Inr 1, ?w1)"
      unfolding name_fibonacci_wrapped by (rule fibonacci_wrapped_2)
  qed (simp_all add: fibonacci_world_def fresh_def)
  have x: "map_of (priv fibonacci_world) (memo_key quoted repr_int [2] []) = None
      \<and> call ?g [2] [] (emit Invoked (py_print (Computing (name ?g) [2]) fibonacci_world))
          = (Inl (PyExn ''RecursionError'' ''maximum recursion depth exceeded''), ?w0)"
  proof (intro conjI)
    show "call ?g [2] [] (emit Invoked (py_print (Computing (name ?g) [2]) fibonacci_world))
          = (Inl (PyExn ''RecursionError'' ''maximum recursion depth exceeded''), ?w0)"
      unfolding name_fibonacci_wrapped by (rule fibonacci_recursion_error)
  qed (simp add: fibonacci_world_def fresh_def)
  have p: "distinct (map fst ?kw) \<and> mset ?kw' = mset ?kw" by simp
  have a: "map_of (priv add_numbers_world) (memo_key quoted repr_int [] ?kw) = None
      \<and> fst (call add_numbers_wrapped [] ?kw (inner add_numbers_world)) = Inr 5
      \<and> distinct (map fst ?kw) \<and> mset ?kw' = mset ?kw"
    by (simp add: add_numbers_world_def fresh_def call_add_numbers_wrapped_kw)
  have e: "map_of (priv unreliable_world) (memo_key quoted repr_int [] []) = None
      \<and> fst (call unreliable_function [] [] (inner unreliable_world))
          = Inl (PyExn ''Exception'' ''Random failure!'')"
    by (simp add: unreliable_world_def fresh_def call_unreliable_only_failures)
  have b: "memo_key quoted repr_int [] ?kw \<noteq> memo_key quoted repr_int [] ?kw2
      \<and> map_of (priv add_numbers_world) (memo_key quoted repr_int [] ?kw) = None
      \<and> map_of (priv add_numbers_world) (memo_key quoted repr_int [] ?kw2) = None"
    by (simp add: add_numbers_world_def fresh_def memo_key_add_numbers_kw)
  note t = memoize_caches [of _ quoted repr_int]
  note c = conjunct2
  have z: "invocations add_numbers_world = 0" "invocations unreliable_world = 0"
    by (simp_all add: add_numbers_world_def unreliable_world_def invocations_fresh)
  have i: "invocations (snd (call (memoize quoted repr_int ?f) [2] [] fibonacci_world)) = 3"
    unfolding f2 snd_conv by (simp add: invocations_def fibonacci_world_def fresh_def)
  let ?F = "memoize quoted repr_int ?f"
  let ?A = "memoize quoted repr_int (on_inner add_numbers_wrapped)"
  let ?U = "memoize quoted repr_int (on_inner unreliable_function)"
  note r1 = t [THEN conjunct1, THEN mp, OF h, of ?f]
  note r2 = t [THEN c, THEN conjunct1, THEN mp, OF m]
  note r3 = t [THEN c, THEN c, THEN conjunct1, THEN mp, OF x]
  note r4 = t [THEN c, THEN c, THEN c, THEN conjunct1, THEN mp, OF a]
  note r5 = t [THEN c, THEN c, THEN c, THEN c, THEN conjunct1, THEN mp, OF e]
  note r6 = t [THEN c, THEN c, THEN c, THEN c, THEN c, THEN conjunct1, THEN mp, OF b,
       of add_numbers_wrapped]
  note r7 = t [THEN c, THEN c, THEN c, THEN c, THEN c, THEN c, THEN c, THEN mp, OF p, of "[]"]
  have c1: "call ?F [1] [] (snd (call ?F [2] [] fibonacci_world))
     = (Inr 1, py_print (Cache_hit ''fibonacci'' [1]) (snd (call ?F [2] [] fibonacci_world)))"
    using r1 [THEN conjunct1] unfolding name_fibonacci_wrapped .
  have c2: "fst (call ?F [2] [] fibonacci_world) = Inr 1"
    by (simp only: r2 [THEN conjunct1] fst_conv)
  note c3 = r2 [THEN c, THEN conjunct1]
  have c4: "invocations (snd (call ?F [2] [] (snd (call ?F [2] [] fibonacci_world)))) = 3"
    by (simp only: r2 [THEN c, THEN c] i)
  have c5: "fst (call (memoize quoted repr_int ?g) [2] [] fibonacci_world)
       = Inl (PyExn ''RecursionError'' ''maximum recursion depth exceeded'')"
    by (simp only: r3 fst_conv)
  note c6 = r4 [THEN conjunct1]
  note c7 = r4 [THEN c, THEN conjunct1]
  have c8: "invocations (snd (call ?A [] ?kw' (snd (call ?A [] ?kw add_numbers_world)))) = 1"
    by (simp only: r4 [THEN c, THEN c, THEN c] z One_nat_def)
  note c9 = r5 [THEN conjunct1]
  have c10: "invocations (snd (call ?U [] [] (snd (call ?U [] [] unreliable_world)))) = 2"
    by (simp only: r5 [THEN c, THEN c] z add_0)
  have c11: "fst (call ?A [] ?kw2 (snd (call ?A [] ?kw add_numbers_world))) = Inr 9"
    by (simp only: r6 [THEN c, THEN conjunct1] call_add_numbers_wrapped_kw fst_conv snd_conv)
      simp
  have c12: "invocations (snd (call ?A [] ?kw2 (snd (call ?A [] ?kw add_numbers_world)))) = 2"
    by (simp only: r6 [THEN c, THEN c] z add_0)
  show ?thesis
    unfolding F G
    by (intro conjI c1 c2 c3 c4 c5 c6 c7 c8 c9 c10 c11 c12 r7)
qed

text \<open>
  C3 as stated fails three times. \<open>unreliable_function\<close> memoized and failing is called
  on each of two calls with the same (no) arguments. Two different arguments with the same
  \<open>repr\<close> share a cache entry: \<open>greet\<close> memoized, called with one \<open>Tag\<close> and then
  with another, is called once and greets the first one twice. And \<open>fibonacci(2)\<close>
  twice calls \<open>fibonacci\<close> three times, for 2, for 1 and for 0.
\<close>

theorem memoize_counterexample:
  "invocations (snd (call (memoize quoted repr_int (on_inner unreliable_function)) [] []
       (snd (call (memoize quoted repr_int (on_inner unreliable_function)) [] []
          unreliable_world)))) = 2
   \<and> Tag ''Alice'' \<noteq> Tag ''Bob''
   \<and> fst (call (memoize quoted tag_repr (on_inner (greet tag_str))) [Tag ''Bob''] []
       (snd (call (memoize quoted tag_repr (on_inner (greet tag_str))) [Tag ''Alice''] []
          greet_world)))
       = Inr ''Hello, Alice!''
   \<and> invocations (snd (call (memoize quoted tag_repr (on_inner (greet tag_str)))
       [Tag ''Bob''] []
       (snd (call (memoize quoted tag_repr (on_inner (greet tag_str))) [Tag ''Alice''] []
          greet_world))))
       = 1
   \<and> invocations (snd (call (fibonacci recursion_depth) [2] []
       (snd (call (fibonacci recursion_depth) [2] [] fibonacci_world)))) = 3"
proof -
  let ?U = "memoize quoted repr_int (on_inner unreliable_function)"
  let ?G = "memoize quoted tag_repr (on_inner (greet tag_str))"
  have k: "map_of (priv unreliable_world) (memo_key quoted repr_int [] []) = None"
    by (simp add: unreliable_world_def fresh_def)
  note a = memoize_miss [OF k, of unreliable_function]
  have k2: "map_of (priv (snd (call ?U [] [] unreliable_world)))
      (memo_key quoted repr_int [] []) = None"
    unfolding a(4)
    by (simp add: unreliable_world_def fresh_def call_unreliable_only_failures)
  have 1: "invocations (snd (call ?U [] [] (snd (call ?U [] [] unreliable_world)))) = 2"
    using memoize_two_misses(2) [OF k k2]
    by (simp add: unreliable_world_def invocations_fresh)
  have same: "memo_key quoted tag_repr [Tag ''Bob''] [] = memo_key quoted tag_repr [Tag ''Alice''] []"
    by (simp add: memo_key_def tag_repr_def)
  have g: "map_of (priv greet_world) (memo_key quoted tag_repr [Tag ''Alice''] []) = None"
    by (simp add: greet_world_def fresh_def)
  note b = memoize_miss [OF g, of "greet tag_str"]
  have hit: "map_of (priv (snd (call ?G [Tag ''Alice''] [] greet_world)))
      (memo_key quoted tag_repr [Tag ''Bob''] []) = Some ''Hello, Alice!''"
    unfolding b(4) same
    by (simp add: call_greet greet_world_def fresh_def)
  note c = memoize_hit [OF hit, of "on_inner (greet tag_str)"]
  have "trace (snd (call ?G [Tag ''Bob''] [] (snd (call ?G [Tag ''Alice''] [] greet_world))))
      = trace greet_world @ [Printed (Computing ''greet'' [Tag ''Alice'']), Invoked,
          Printed (Cache_hit ''greet'' [Tag ''Bob''])]"
    unfolding c by (simp add: py_print_simps b(3) name_on_inner) (simp add: greet_def)
  from invocations_append [OF this]
  have 2: "invocations (snd (call ?G [Tag ''Bob''] []
      (snd (call ?G [Tag ''Alice''] [] greet_world)))) = 1"
    by (simp add: greet_world_def invocations_fresh)
  have 3: "invocations (snd (call (fibonacci recursion_depth) [2] []
       (snd (call (fibonacci recursion_depth) [2] [] fibonacci_world)))) = 3"
    unfolding recursion_depth_Suc fibonacci_2_again snd_conv
    by (simp add: invocations_def fibonacci_world_def fresh_def)
  from 1 2 3 show ?thesis by (simp add: c)
qed

subsection \<open>The cache key of positional and of keyword arguments\<close>












end
